theory Spec2Isabelle
  imports Main
begin

section \<open>Python values\<close>

text \<open>
  The pipeline of \<^verbatim>\<open>app.py\<close> passes texts between four agents and decodes one of them
  with \<^verbatim>\<open>json.loads\<close>.  Texts are byte strings (UTF-8); a decoded JSON document is a
  value of the type below: \<^verbatim>\<open>None\<close>, \<^verbatim>\<open>bool\<close>, \<^verbatim>\<open>int\<close>, \<^verbatim>\<open>float\<close>, \<^verbatim>\<open>str\<close>,
  \<^verbatim>\<open>list\<close> and \<^verbatim>\<open>dict\<close>.  A float keeps the numeral text that was matched; its
  floating-point value is not modelled.  A dict is an association list in insertion order
  with distinct keys.
\<close>

datatype json =
    JNull
  | JBool bool
  | JInt int
  | JFloat string
  | JString string
  | JArray "json list"
  | JObject "(string \<times> json) list"

fun dict_set :: "'k \<Rightarrow> 'v \<Rightarrow> ('k \<times> 'v) list \<Rightarrow> ('k \<times> 'v) list" where
  "dict_set k v [] = [(k, v)]"
| "dict_set k v ((k', v') # d) = (if k' = k then (k, v) # d else (k', v') # dict_set k v d)"

fun dict_lookup :: "'k \<Rightarrow> ('k \<times> 'v) list \<Rightarrow> 'v option" where
  "dict_lookup k [] = None"
| "dict_lookup k ((k', v) # d) = (if k' = k then Some v else dict_lookup k d)"

definition dict_of_pairs :: "('k \<times> 'v) list \<Rightarrow> ('k \<times> 'v) list" where
  "dict_of_pairs ps = foldl (\<lambda>d (k, v). dict_set k v d) [] ps"

section \<open>Exceptions\<close>

text \<open>
  An exception is an instance of Python's \<^verbatim>\<open>Exception\<close>: its class name and the text that
  \<^verbatim>\<open>str(e)\<close> gives.  Both handlers of the source are \<^verbatim>\<open>except Exception\<close>; signals
  outside that hierarchy (\<^verbatim>\<open>KeyboardInterrupt\<close>, task cancellation) are not modelled.
\<close>

datatype py_exception = PyExc string string

fun str_exc :: "py_exception \<Rightarrow> string" where
  "str_exc (PyExc cls msg) = msg"

fun show_nat :: "nat \<Rightarrow> string" where
  "show_nat n =
     (if n < 10 then [char_of (48 + n)]
      else show_nat (n div 10) @ [char_of (48 + n mod 10)])"

declare show_nat.simps [simp del]

section \<open>The decoder behind json.loads\<close>

text \<open>
  \<^verbatim>\<open>json.loads\<close> belongs to Python's standard library.  The functions below follow its
  decoder (\<^verbatim>\<open>py_scanstring\<close>, \<^verbatim>\<open>JSONObject\<close>, \<^verbatim>\<open>JSONArray\<close>, \<^verbatim>\<open>scan_once\<close>, \<^verbatim>\<open>decode\<close>) in
  its default, strict configuration.  A code point written as \<^verbatim>\<open>\uXXXX\<close> is stored in UTF-8.

  A call of \<^verbatim>\<open>json.loads\<close> ends in one of three ways: it returns the decoded value, it
  raises \<^verbatim>\<open>JSONDecodeError\<close> because the text is not JSON, or it raises something else
  because the text, though JSON, exceeds a limit of the interpreter.  Two limits exist:
  every object or array entered costs one level of recursion, and \<^verbatim>\<open>RecursionError\<close> is
  raised when none is left; and \<^verbatim>\<open>int\<close> refuses a literal of more digits than
  \<^verbatim>\<open>sys.get_int_max_str_digits()\<close> (4300 unless changed, 0 for no limit; literals of
  at most 640 digits are never refused) with a \<^verbatim>\<open>ValueError\<close>.  The record \<open>limits\<close> holds
  both: the number of nested containers that can still be entered (\<open>None\<close> for no bound) and
  the digit limit.
\<close>

record limits =
  recursion_room :: "nat option"
  int_max_str_digits :: nat

datatype decoded = Decoded json | JSONDecodeError | Fault py_exception

text \<open>
  The result of a scan: the value found and the rest of the input, no match (which
  \<^verbatim>\<open>json.loads\<close> reports as \<^verbatim>\<open>JSONDecodeError\<close>), or an exception of another class.
\<close>

datatype 'a scanned = Done 'a string | Invalid | Broke py_exception

definition RecursionError :: "string \<Rightarrow> py_exception" where
  "RecursionError what =
     PyExc ''RecursionError''
       (''maximum recursion depth exceeded while decoding a JSON '' @ what @
        '' from a unicode string'')"

definition int_digits_error :: "nat \<Rightarrow> nat \<Rightarrow> py_exception" where
  "int_digits_error limit digits =
     PyExc ''ValueError''
       (''Exceeds the limit ('' @ show_nat limit @
        '' digits) for integer string conversion: value has '' @ show_nat digits @
        '' digits; use sys.set_int_max_str_digits() to increase the limit'')"

definition exhausted :: "limits \<Rightarrow> nat \<Rightarrow> bool" where
  "exhausted lim depth = (case recursion_room lim of None \<Rightarrow> False | Some room \<Rightarrow> room \<le> depth)"

definition is_ws :: "char \<Rightarrow> bool" where
  "is_ws c = (c = CHR '' '' \<or> c = CHR 0x09 \<or> c = CHR 0x0A \<or> c = CHR 0x0D)"

definition skip_ws :: "string \<Rightarrow> string" where
  "skip_ws s = dropWhile is_ws s"

definition is_digit :: "char \<Rightarrow> bool" where
  "is_digit c = (48 \<le> (of_char c :: nat) \<and> (of_char c :: nat) \<le> 57)"

definition digit_val :: "char \<Rightarrow> nat" where
  "digit_val c = of_char c - 48"

definition nat_of_digits :: "string \<Rightarrow> nat" where
  "nat_of_digits ds = foldl (\<lambda>n c. 10 * n + digit_val c) 0 ds"

definition hex_val :: "char \<Rightarrow> nat option" where
  "hex_val c =
     (let n = (of_char c :: nat) in
      if 48 \<le> n \<and> n \<le> 57 then Some (n - 48)
      else if 65 \<le> n \<and> n \<le> 70 then Some (n - 55)
      else if 97 \<le> n \<and> n \<le> 102 then Some (n - 87)
      else None)"

definition decode_uXXXX :: "string \<Rightarrow> nat option" where
  "decode_uXXXX s =
     (case s of
        a # b # c # d # _ \<Rightarrow>
          (case (hex_val a, hex_val b, hex_val c, hex_val d) of
             (Some x, Some y, Some z, Some w) \<Rightarrow> Some (((x * 16 + y) * 16 + z) * 16 + w)
           | _ \<Rightarrow> None)
      | _ \<Rightarrow> None)"

definition utf8 :: "nat \<Rightarrow> string" where
  "utf8 n =
     (if n < 0x80 then [char_of n]
      else if n < 0x800 then [char_of (0xC0 + n div 0x40), char_of (0x80 + n mod 0x40)]
      else if n < 0x10000 then
        [char_of (0xE0 + n div 0x1000), char_of (0x80 + n div 0x40 mod 0x40),
         char_of (0x80 + n mod 0x40)]
      else
        [char_of (0xF0 + n div 0x40000), char_of (0x80 + n div 0x1000 mod 0x40),
         char_of (0x80 + n div 0x40 mod 0x40), char_of (0x80 + n mod 0x40)])"

definition backslash :: "char \<Rightarrow> char option" where
  "backslash e =
     (if e = CHR 0x22 then Some (CHR 0x22)
      else if e = CHR 0x5C then Some (CHR 0x5C)
      else if e = CHR ''/'' then Some (CHR ''/'')
      else if e = CHR ''b'' then Some (CHR 0x08)
      else if e = CHR ''f'' then Some (CHR 0x0C)
      else if e = CHR ''n'' then Some (CHR 0x0A)
      else if e = CHR ''r'' then Some (CHR 0x0D)
      else if e = CHR ''t'' then Some (CHR 0x09)
      else None)"

function py_scanstring :: "string \<Rightarrow> (string \<times> string) option" where
  "py_scanstring s =
     (case s of
        [] \<Rightarrow> None
      | c # r \<Rightarrow>
          if c = CHR 0x22 then Some ([], r)
          else if c = CHR 0x5C then
            (case r of
               [] \<Rightarrow> None
             | e # r1 \<Rightarrow>
                 if e = CHR ''u'' then
                   (case decode_uXXXX r1 of
                      None \<Rightarrow> None
                    | Some uni \<Rightarrow>
                        let r2 = drop 4 r1 in
                        if 0xD800 \<le> uni \<and> uni \<le> 0xDBFF \<and> take 2 r2 = [CHR 0x5C, CHR ''u''] then
                          (case decode_uXXXX (drop 2 r2) of
                             None \<Rightarrow> None
                           | Some uni2 \<Rightarrow>
                               if 0xDC00 \<le> uni2 \<and> uni2 \<le> 0xDFFF then
                                 map_option
                                   (\<lambda>(t, r'). (utf8 (0x10000 + (uni - 0xD800) * 0x400 + (uni2 - 0xDC00)) @ t, r'))
                                   (py_scanstring (drop 6 r2))
                               else map_option (\<lambda>(t, r'). (utf8 uni @ t, r')) (py_scanstring r2))
                        else map_option (\<lambda>(t, r'). (utf8 uni @ t, r')) (py_scanstring r2))
                 else
                   (case backslash e of
                      None \<Rightarrow> None
                    | Some ch \<Rightarrow> map_option (\<lambda>(t, r'). (ch # t, r')) (py_scanstring r1)))
          else if (of_char c :: nat) < 0x20 then None
          else map_option (\<lambda>(t, r'). (c # t, r')) (py_scanstring r))"
  by pat_completeness auto
termination
  by (relation "measure length") auto

declare py_scanstring.simps [simp del]


lemma py_scanstring_shorter: "py_scanstring s = Some (t, r) \<Longrightarrow> length r < length s"
proof (induction s arbitrary: t r rule: py_scanstring.induct)
  case (1 s)
  show ?case
    using "1.prems" "1.IH"
    apply (subst (asm) py_scanstring.simps)
    apply (auto split: list.splits if_splits option.splits simp: Let_def)
    apply fastforce+
    done
qed

text \<open>
  The number pattern of the scanner, \<^verbatim>\<open>(-?(?:0|[1-9][0-9]*))(\.[0-9]+)?([eE][-+]?[0-9]+)?\<close>,
  group by group; each function returns the text matched and the rest of the input.
\<close>

definition match_integer :: "string \<Rightarrow> (string \<times> string) option" where
  "match_integer s =
     (let (sign, s1) = (case s of
                          [] \<Rightarrow> ([], s)
                        | c # r \<Rightarrow> if c = CHR ''-'' then ([c], r) else ([], s))
      in case s1 of
           [] \<Rightarrow> None
         | d # r \<Rightarrow>
             if \<not> is_digit d then None
             else if d = CHR ''0'' then Some (sign @ [d], r)
             else Some (sign @ d # takeWhile is_digit r, dropWhile is_digit r))"

definition match_frac :: "string \<Rightarrow> string \<times> string" where
  "match_frac s =
     (case s of
        p # f # r \<Rightarrow>
          if p = CHR ''.'' \<and> is_digit f
          then (p # f # takeWhile is_digit r, dropWhile is_digit r)
          else ([], s)
      | _ \<Rightarrow> ([], s))"

definition match_exp :: "string \<Rightarrow> string \<times> string" where
  "match_exp s =
     (case s of
        [] \<Rightarrow> ([], s)
      | e # r \<Rightarrow>
          if e = CHR ''e'' \<or> e = CHR ''E'' then
            (let (sign, r1) = (case r of
                                 [] \<Rightarrow> ([], r)
                               | g # r' \<Rightarrow> if g = CHR ''+'' \<or> g = CHR ''-''
                                           then ([g], r') else ([], r))
             in case r1 of
                  [] \<Rightarrow> ([], s)
                | x # r2 \<Rightarrow>
                    if is_digit x
                    then (e # sign @ x # takeWhile is_digit r2, dropWhile is_digit r2)
                    else ([], s))
          else ([], s))"

text \<open>
  \<^verbatim>\<open>int(integer)\<close> on the text of the first group; the digits are counted without the
  sign.
\<close>

definition py_int :: "limits \<Rightarrow> string \<Rightarrow> py_exception + int" where
  "py_int lim integer =
     (let (negative, digits) =
            (case integer of
               [] \<Rightarrow> (False, [])
             | c # ds \<Rightarrow> if c = CHR ''-'' then (True, ds) else (False, integer))
      in if 640 < length digits \<and> 0 < int_max_str_digits lim \<and>
            int_max_str_digits lim < length digits
         then Inl (int_digits_error (int_max_str_digits lim) (length digits))
         else Inr (if negative then - int (nat_of_digits digits) else int (nat_of_digits digits)))"

definition match_number :: "limits \<Rightarrow> string \<Rightarrow> json scanned" where
  "match_number lim s =
     (case match_integer s of
        None \<Rightarrow> Invalid
      | Some (integer, s1) \<Rightarrow>
          (let (frac, s2) = match_frac s1;
               (exp, s3) = match_exp s2
           in if frac = [] \<and> exp = []
              then (case py_int lim integer of
                      Inl e \<Rightarrow> Broke e
                    | Inr i \<Rightarrow> Done (JInt i) s3)
              else Done (JFloat (integer @ frac @ exp)) s3))"

lemma skip_ws_length: "length (skip_ws s) \<le> length s"
  by (simp add: skip_ws_def length_dropWhile_le)

lemma skip_ws_Cons_length: "skip_ws s = c # r \<Longrightarrow> length r < length s"
  using skip_ws_length [of s] by simp

function scan_once :: "limits \<Rightarrow> nat \<Rightarrow> string \<Rightarrow> json scanned"
  and JSONArray_loop :: "limits \<Rightarrow> nat \<Rightarrow> string \<Rightarrow> json list \<Rightarrow> json scanned"
  and JSONObject_loop :: "limits \<Rightarrow> nat \<Rightarrow> string \<Rightarrow> (string \<times> json) list \<Rightarrow> json scanned"
where
  "scan_once lim depth s =
     (case s of
        [] \<Rightarrow> Invalid
      | c # r \<Rightarrow>
          if c = CHR 0x22 then
            (case py_scanstring r of None \<Rightarrow> Invalid | Some (t, r') \<Rightarrow> Done (JString t) r')
          else if c = CHR ''{'' then
            (if exhausted lim depth then Broke (RecursionError ''object'')
             else
               (case skip_ws r of
                  [] \<Rightarrow> Invalid
                | n # r1 \<Rightarrow>
                    if n = CHR ''}'' then Done (JObject []) r1
                    else if n = CHR 0x22 then JSONObject_loop lim (Suc depth) r1 []
                    else Invalid))
          else if c = CHR ''['' then
            (if exhausted lim depth then Broke (RecursionError ''array'')
             else
               (case skip_ws r of
                  [] \<Rightarrow> Invalid
                | n # r1 \<Rightarrow>
                    if n = CHR '']'' then Done (JArray []) r1
                    else JSONArray_loop lim (Suc depth) (n # r1) []))
          else if take 4 s = ''null'' then Done JNull (drop 4 s)
          else if take 4 s = ''true'' then Done (JBool True) (drop 4 s)
          else if take 5 s = ''false'' then Done (JBool False) (drop 5 s)
          else
            (case match_number lim s of
               Done v r' \<Rightarrow> Done v r'
             | Broke e \<Rightarrow> Broke e
             | Invalid \<Rightarrow>
                 if take 3 s = ''NaN'' then Done (JFloat ''NaN'') (drop 3 s)
                 else if take 8 s = ''Infinity'' then Done (JFloat ''Infinity'') (drop 8 s)
                 else if take 9 s = ''-Infinity'' then Done (JFloat ''-Infinity'') (drop 9 s)
                 else Invalid))"
| "JSONArray_loop lim depth s values =
     (case scan_once lim depth s of
        Invalid \<Rightarrow> Invalid
      | Broke e \<Rightarrow> Broke e
      | Done v r \<Rightarrow>
          (case skip_ws r of
             [] \<Rightarrow> Invalid
           | n # r1 \<Rightarrow>
               if n = CHR '']'' then Done (JArray (values @ [v])) r1
               else if n = CHR '','' then
                 (if length (skip_ws r1) < length s
                  then JSONArray_loop lim depth (skip_ws r1) (values @ [v]) else Invalid)
               else Invalid))"
| "JSONObject_loop lim depth s pairs =
     (case py_scanstring s of
        None \<Rightarrow> Invalid
      | Some (key, r) \<Rightarrow>
          (case skip_ws r of
             [] \<Rightarrow> Invalid
           | n # r1 \<Rightarrow>
               if n \<noteq> CHR '':'' then Invalid
               else
                 (case scan_once lim depth (skip_ws r1) of
                    Invalid \<Rightarrow> Invalid
                  | Broke e \<Rightarrow> Broke e
                  | Done v r2 \<Rightarrow>
                      (case skip_ws r2 of
                         [] \<Rightarrow> Invalid
                       | m # r3 \<Rightarrow>
                           if m = CHR ''}'' then Done (JObject (dict_of_pairs (pairs @ [(key, v)]))) r3
                           else if m = CHR '','' then
                             (case skip_ws r3 of
                                [] \<Rightarrow> Invalid
                              | q # r4 \<Rightarrow>
                                  if q = CHR 0x22 \<and> length r4 < length s
                                  then JSONObject_loop lim depth r4 (pairs @ [(key, v)])
                                  else Invalid)
                           else Invalid))))"
  by pat_completeness auto
termination
proof (relation "measure (\<lambda>x. case x of
          Inl (_, _, s) \<Rightarrow> 2 * length s
        | Inr (Inl (_, _, s, _)) \<Rightarrow> 2 * length s + 1
        | Inr (Inr (_, _, s, _)) \<Rightarrow> 2 * length s + 1)", goal_cases)
  case 1
  show ?case by simp
next
  case (2 lim depth s c r n r1)
  then show ?case using skip_ws_Cons_length [of r n r1] by simp
next
  case (3 lim depth s c r n r1)
  then show ?case using skip_ws_Cons_length [of r n r1] by simp
next
  case 4
  show ?case by simp
next
  case 5
  then show ?case by simp
next
  case (6 lim depth s pairs x key r n r1)
  then show ?case
    using py_scanstring_shorter [of s key r] skip_ws_Cons_length [of r n r1] skip_ws_length [of r1]
    by auto
next
  case 7
  then show ?case by simp
qed

declare scan_once.simps [simp del] JSONArray_loop.simps [simp del] JSONObject_loop.simps [simp del]

text \<open>
  \<^verbatim>\<open>json.loads(s)\<close>: white space, one value, white space, end of the text.
\<close>

definition json_loads :: "limits \<Rightarrow> string \<Rightarrow> decoded" where
  "json_loads lim s =
     (case scan_once lim 0 (skip_ws s) of
        Invalid \<Rightarrow> JSONDecodeError
      | Broke e \<Rightarrow> Fault e
      | Done obj r \<Rightarrow> if skip_ws r = [] then Decoded obj else JSONDecodeError)"

text \<open>
  A text is valid JSON when the decoder accepts it with no limit in force.
\<close>

definition no_limits :: limits where
  "no_limits = \<lparr>recursion_room = None, int_max_str_digits = 0\<rparr>"

definition valid_json :: "string \<Rightarrow> bool" where
  "valid_json s = (case json_loads no_limits s of Decoded v \<Rightarrow> True | _ \<Rightarrow> False)"

text \<open>
  An interpreter with the default settings: \<^verbatim>\<open>sys.getrecursionlimit()\<close> is 1000, of which
  some levels are already in use where \<^verbatim>\<open>json.loads\<close> is called (900 are taken to be
  left; the stub runs below only need that fewer than 1000 are), and the digit limit is 4300.
  Exhaustion of memory is not modelled.
\<close>

definition cpython_limits :: limits where
  "cpython_limits = \<lparr>recursion_room = Some 900, int_max_str_digits = 4300\<rparr>"

text \<open>
  The tests on lengths in the two loops are there for the termination proof only: every
  successful scan consumes input, so they always succeed, and the loops satisfy the
  equations without them.
\<close>

lemma match_integer_shorter: "match_integer s = Some (t, r) \<Longrightarrow> length r < length s"
  unfolding match_integer_def
  by (auto simp: Let_def split: list.splits if_splits
      intro: le_less_trans [OF length_dropWhile_le])

lemma match_frac_length: "length (snd (match_frac s)) \<le> length s"
  unfolding match_frac_def
  by (auto split: list.splits intro: le_trans [OF length_dropWhile_le])

lemma match_exp_length: "length (snd (match_exp s)) \<le> length s"
  unfolding match_exp_def
  by (auto simp: Let_def split: list.splits intro: le_trans [OF length_dropWhile_le])

lemma match_number_shorter: "match_number lim s = Done v r \<Longrightarrow> length r < length s"
proof -
  assume a: "match_number lim s = Done v r"
  then obtain t s1 where i: "match_integer s = Some (t, s1)"
    by (auto simp: match_number_def split: option.splits)
  with a have "r = snd (match_exp (snd (match_frac s1)))"
    by (auto simp: match_number_def Let_def split: prod.splits if_splits sum.splits)
  with match_integer_shorter [OF i] match_frac_length [of s1]
    match_exp_length [of "snd (match_frac s1)"]
  show ?thesis by simp
qed

lemma literal_shorter:
  assumes "take n s = t" and "length t = n" and "0 < n"
  shows "length (drop n s) < length s"
proof -
  from assms have "min (length s) n = n" by (metis length_take)
  with assms(3) show ?thesis by simp
qed

lemma scan_shorter:
  "scan_once lim depth s = Done v r \<Longrightarrow> length r < length s"
  "JSONArray_loop lim depth s vs = Done v r \<Longrightarrow> length r < length s"
  "JSONObject_loop lim depth s ps = Done v r \<Longrightarrow> length r < length s"
proof (induction lim depth s and lim depth s vs and lim depth s ps arbitrary: v r and v r and v r
    rule: scan_once_JSONArray_loop_JSONObject_loop.induct)
  case (1 lim depth s)
  from "1.prems" obtain c r0 where s: "s = c # r0"
    by (subst (asm) scan_once.simps) (auto split: list.splits)
  consider (str) "c = CHR 0x22" | (obj) "c \<noteq> CHR 0x22" "c = CHR ''{''"
    | (arr) "c \<noteq> CHR 0x22" "c \<noteq> CHR ''{''" "c = CHR ''[''"
    | (other) "c \<noteq> CHR 0x22" "c \<noteq> CHR ''{''" "c \<noteq> CHR ''[''"
    by blast
  then show ?case
  proof cases
    case str
    with "1.prems" s show ?thesis
      by (subst (asm) scan_once.simps) (auto split: option.splits dest: py_scanstring_shorter)
  next
    case obj
    from "1.prems" s obj have room: "\<not> exhausted lim depth"
      by (subst (asm) scan_once.simps) (auto split: if_splits)
    from "1.prems" s obj room obtain n r1 where n: "skip_ws r0 = n # r1"
      by (subst (asm) scan_once.simps) (auto split: list.splits)
    note l = skip_ws_Cons_length [OF n]
    show ?thesis
    proof (cases "n = CHR ''}''")
      case True
      with "1.prems" s obj room n l show ?thesis
        by (subst (asm) scan_once.simps) auto
    next
      case False
      with "1.prems" s obj room n have q: "n = CHR 0x22"
        and run: "JSONObject_loop lim (Suc depth) r1 [] = Done v r"
        by (subst (asm) scan_once.simps, auto split: if_splits)+
      from "1.IH"(1) [OF s _ obj(2) room n False q run] obj(1) l s show ?thesis by simp
    qed
  next
    case arr
    from "1.prems" s arr have room: "\<not> exhausted lim depth"
      by (subst (asm) scan_once.simps) (auto split: if_splits)
    from "1.prems" s arr room obtain n r1 where n: "skip_ws r0 = n # r1"
      by (subst (asm) scan_once.simps) (auto split: list.splits)
    note l = skip_ws_Cons_length [OF n]
    show ?thesis
    proof (cases "n = CHR '']''")
      case True
      with "1.prems" s arr room n l show ?thesis
        by (subst (asm) scan_once.simps) auto
    next
      case False
      with "1.prems" s arr room n have run: "JSONArray_loop lim (Suc depth) (n # r1) [] = Done v r"
        by (subst (asm) scan_once.simps) auto
      from "1.IH"(2) [OF s _ _ arr(3) room n False run] arr(1,2) l s show ?thesis by simp
    qed
  next
    case other
    with "1.prems" s show ?thesis
      by (subst (asm) scan_once.simps)
        (auto split: if_splits scanned.splits dest: match_number_shorter
          dest: literal_shorter [where n = 4] literal_shorter [where n = 5]
            literal_shorter [where n = 3] literal_shorter [where n = 8]
            literal_shorter [where n = 9])
  qed
next
  case (2 lim depth s vs)
  from "2.prems" obtain x r0 where x: "scan_once lim depth s = Done x r0"
    by (subst (asm) JSONArray_loop.simps) (auto split: scanned.splits)
  note l0 = "2.IH"(1) [OF x]
  from "2.prems" x obtain n r1 where n: "skip_ws r0 = n # r1"
    by (subst (asm) JSONArray_loop.simps) (auto split: list.splits)
  note l1 = skip_ws_Cons_length [OF n]
  show ?case
  proof (cases "n = CHR '']''")
    case True
    with "2.prems" x n l0 l1 show ?thesis
      by (subst (asm) JSONArray_loop.simps) auto
  next
    case False
    with "2.prems" x n have c: "n = CHR '',''" and g: "length (skip_ws r1) < length s"
      and run: "JSONArray_loop lim depth (skip_ws r1) (vs @ [x]) = Done v r"
      by (subst (asm) JSONArray_loop.simps, auto split: if_splits)+
    from "2.IH"(2) [OF x n False c g run] g show ?thesis by simp
  qed
next
  case (3 lim depth s ps)
  from "3.prems" obtain key r0 where k: "py_scanstring s = Some (key, r0)"
    by (subst (asm) JSONObject_loop.simps) (auto split: option.splits)
  note l0 = py_scanstring_shorter [OF k]
  from "3.prems" k obtain n r1 where n: "skip_ws r0 = n # r1"
    by (subst (asm) JSONObject_loop.simps) (auto split: list.splits)
  note l1 = skip_ws_Cons_length [OF n]
  from "3.prems" k n have colon: "n = CHR '':''"
    by (subst (asm) JSONObject_loop.simps) (auto split: if_splits)
  from "3.prems" k n colon obtain x r2 where x: "scan_once lim depth (skip_ws r1) = Done x r2"
    by (subst (asm) JSONObject_loop.simps) (auto split: scanned.splits)
  from "3.IH"(1) [OF k refl n _ x] colon have l2: "length r2 < length (skip_ws r1)" by simp
  from "3.prems" k n colon x obtain m r3 where m: "skip_ws r2 = m # r3"
    by (subst (asm) JSONObject_loop.simps) (auto split: list.splits)
  note l3 = skip_ws_Cons_length [OF m]
  have base: "length r3 < length s"
    using l0 l1 l2 l3 skip_ws_length [of r1] by simp
  show ?case
  proof (cases "m = CHR ''}''")
    case True
    with "3.prems" k n colon x m base show ?thesis
      by (subst (asm) JSONObject_loop.simps) auto
  next
    case False
    with "3.prems" k n colon x m obtain q r4 where c: "m = CHR '',''"
      and q: "skip_ws r3 = q # r4" "q = CHR 0x22" "length r4 < length s"
      and run: "JSONObject_loop lim depth r4 (ps @ [(key, x)]) = Done v r"
      by (subst (asm) JSONObject_loop.simps) (auto split: if_splits list.splits)
    from "3.IH"(2) [OF k refl n _ x m False c q(1) _ run] colon q show ?thesis by simp
  qed
qed

lemma JSONArray_loop_unguarded:
  "JSONArray_loop lim depth s values =
     (case scan_once lim depth s of
        Invalid \<Rightarrow> Invalid
      | Broke e \<Rightarrow> Broke e
      | Done v r \<Rightarrow>
          (case skip_ws r of
             [] \<Rightarrow> Invalid
           | n # r1 \<Rightarrow>
               if n = CHR '']'' then Done (JArray (values @ [v])) r1
               else if n = CHR '','' then JSONArray_loop lim depth (skip_ws r1) (values @ [v])
               else Invalid))"
proof -
  have "length (skip_ws r1) < length s"
    if "scan_once lim depth s = Done v r" "skip_ws r = n # r1" for v r n r1
    using scan_shorter(1) [OF that(1)] skip_ws_Cons_length [OF that(2)] skip_ws_length [of r1]
    by simp
  then show ?thesis
    by (subst JSONArray_loop.simps) (auto split: scanned.splits list.splits)
qed

lemma JSONObject_loop_unguarded:
  "JSONObject_loop lim depth s pairs =
     (case py_scanstring s of
        None \<Rightarrow> Invalid
      | Some (key, r) \<Rightarrow>
          (case skip_ws r of
             [] \<Rightarrow> Invalid
           | n # r1 \<Rightarrow>
               if n \<noteq> CHR '':'' then Invalid
               else
                 (case scan_once lim depth (skip_ws r1) of
                    Invalid \<Rightarrow> Invalid
                  | Broke e \<Rightarrow> Broke e
                  | Done v r2 \<Rightarrow>
                      (case skip_ws r2 of
                         [] \<Rightarrow> Invalid
                       | m # r3 \<Rightarrow>
                           if m = CHR ''}'' then Done (JObject (dict_of_pairs (pairs @ [(key, v)]))) r3
                           else if m = CHR '','' then
                             (case skip_ws r3 of
                                [] \<Rightarrow> Invalid
                              | q # r4 \<Rightarrow>
                                  if q = CHR 0x22
                                  then JSONObject_loop lim depth r4 (pairs @ [(key, v)])
                                  else Invalid)
                           else Invalid))))"
proof -
  have "length r4 < length s"
    if "py_scanstring s = Some (key, r)" "skip_ws r = n # r1"
      "scan_once lim depth (skip_ws r1) = Done v r2" "skip_ws r2 = m # r3" "skip_ws r3 = q # r4"
    for key r n r1 v r2 m r3 q r4
    using py_scanstring_shorter [OF that(1)] skip_ws_Cons_length [OF that(2)]
      scan_shorter(1) [OF that(3)] skip_ws_Cons_length [OF that(4)]
      skip_ws_Cons_length [OF that(5)] skip_ws_length [of r1]
    by simp
  then show ?thesis
    by (subst JSONObject_loop.simps) (auto split: option.splits scanned.splits list.splits)
qed

section \<open>Values in the results, fields of the parsed claim\<close>

datatype pyval = Str string | Json json

fun type_name :: "json \<Rightarrow> string" where
  "type_name JNull = ''NoneType''"
| "type_name (JBool b) = ''bool''"
| "type_name (JInt i) = ''int''"
| "type_name (JFloat f) = ''float''"
| "type_name (JString s) = ''str''"
| "type_name (JArray xs) = ''list''"
| "type_name (JObject d) = ''dict''"

definition AttributeError :: "json \<Rightarrow> string \<Rightarrow> py_exception" where
  "AttributeError obj attr =
     PyExc ''AttributeError''
       ([CHR 0x27] @ type_name obj @ [CHR 0x27] @ '' object has no attribute '' @
        [CHR 0x27] @ attr @ [CHR 0x27])"

text \<open>\<^verbatim>\<open>obj.get(key, default)\<close>: a dict method; on any other value the attribute is missing.\<close>

definition py_get :: "json \<Rightarrow> string \<Rightarrow> json \<Rightarrow> py_exception + json" where
  "py_get obj key dflt =
     (case obj of
        JObject d \<Rightarrow> Inr (case dict_lookup key d of Some v \<Rightarrow> v | None \<Rightarrow> dflt)
      | _ \<Rightarrow> Inl (AttributeError obj ''get''))"

text \<open>\<^verbatim>\<open>parsed_claim.get(section, {}).get(key)\<close>, as on lines 126-128 and 146.\<close>

definition get_field :: "json \<Rightarrow> string \<Rightarrow> string \<Rightarrow> py_exception + json" where
  "get_field parsed_claim section key =
     (case py_get parsed_claim section (JObject []) of
        Inl e \<Rightarrow> Inl e
      | Inr sub \<Rightarrow> py_get sub key JNull)"

section \<open>The world outside the program\<close>

text \<open>
  One call of \<^verbatim>\<open>agent.get_response\<close> returns a message, returns a tuple of messages, or
  raises.  A message is modelled by its text (what \<^verbatim>\<open>str\<close> and an f-string give).
\<close>

datatype outcome = Returns string | ReturnsTuple "string list" | Raises py_exception

type_synonym call = "string \<times> string \<times> outcome"

text \<open>
  The world records what a run did: the agent calls (agent, query, outcome), the texts
  handed to \<^verbatim>\<open>json.loads\<close>, and the messages given to \<^verbatim>\<open>logging.exception\<close>.
\<close>

record world =
  calls :: "call list"
  decoded :: "string list"
  logged :: "string list"

text \<open>
  The environment is everything the program does not define: whether entering the two
  \<^verbatim>\<open>async with\<close> blocks raises, whether fetching an agent by its identifier raises, what an
  agent does with a query (it may depend on all earlier calls), and how Python prints a
  float, a list or a dict inside an f-string, and the limits of the interpreter that
  \<^verbatim>\<open>json.loads\<close> runs into.  Leaving the \<^verbatim>\<open>async with\<close> blocks and \<^verbatim>\<open>st.write\<close> are taken
  not to raise.
\<close>

record env =
  connect :: "py_exception option"
  resolve :: "string \<Rightarrow> py_exception option"
  get_response :: "call list \<Rightarrow> string \<Rightarrow> string \<Rightarrow> outcome"
  format_other :: "json \<Rightarrow> string"
  interpreter :: limits

definition py_format :: "env \<Rightarrow> json \<Rightarrow> string" where
  "py_format env v =
     (case v of
        JNull \<Rightarrow> ''None''
      | JBool b \<Rightarrow> (if b then ''True'' else ''False'')
      | JInt i \<Rightarrow> (if i < 0 then ''-'' @ show_nat (nat (- i)) else show_nat (nat i))
      | JString s \<Rightarrow> s
      | _ \<Rightarrow> format_other env v)"

definition logging_exception :: "string \<Rightarrow> world \<Rightarrow> world" where
  "logging_exception msg w = w\<lparr>logged := logged w @ [msg]\<rparr>"

section \<open>Constants of app.py\<close>

definition CLAIM_QUERY :: string where
  "CLAIM_QUERY =
     ''A customer holding Policy 2 is requesting damages of 4000 euros for claim type B. '' @
     ''The customer states that these costs are due to being rear ended with their car, requiring '' @
     ''costs to replace the rear bumper for their car.''"

definition JSON_FORMAT :: string where
  \<open>JSON_FORMAT =
     ''\<newline>Please provide a valid JSON response (no markdown formatting, just JSON) with the following structure:\<newline>'' @
     ''{\<newline>'' @
     ''  "policy_assessor": {\<newline>'' @
     ''    "policy_number": "value",\<newline>'' @
     ''    "claim_type": "value",\<newline>'' @
     ''    "damage_claim": "value"\<newline>'' @
     ''  },\<newline>'' @
     ''  "fraud_detector": {\<newline>'' @
     ''    "claim_description": "value"\<newline>'' @
     ''  }\<newline>'' @
     ''}''\<close>

definition AGENTS_AND_QUERIES :: "(string \<times> string) list" where
  "AGENTS_AND_QUERIES =
     [(''ClaimHandlerAgent'', ''asst_8WPO5fEmxYN96N2yAoIjbrDb''),
      (''PolicyAssessorAgent'', ''asst_eUiaOd5KjushG1semhHqtZtX''),
      (''FraudDetectionAgent'', ''asst_6dHVA9CV9BH3NAlootUQoj23''),
      (''ClaimEvaluatorAgent'', ''asst_k2syPJidqJUINBz7g1jvzssN'')]"

definition clarification_query :: string where
  "clarification_query =
     ''The output provided does not appear to be valid JSON.'' @
     ''Please provide a valid JSON response following the specified structure.''"

section \<open>invoke_agent\<close>

text \<open>
  Lines 70-79.  A tuple is unwrapped to its first element; \<^verbatim>\<open>response[0]\<close> on an empty
  tuple raises \<^verbatim>\<open>IndexError\<close> inside the \<^verbatim>\<open>try\<close>, so it ends in the handler as well.
\<close>

definition invoke_agent :: "env \<Rightarrow> string \<Rightarrow> string \<Rightarrow> world \<Rightarrow> string \<times> world" where
  "invoke_agent env agent query w =
     (let response = get_response env (calls w) agent query;
          w1 = w\<lparr>calls := calls w @ [(agent, query, response)]\<rparr>
      in case response of
           Returns r \<Rightarrow> (r, w1)
         | ReturnsTuple rs \<Rightarrow>
             (case rs of
                r # _ \<Rightarrow> (r, w1)
              | [] \<Rightarrow> (''Error invoking agent.'', logging_exception ''Error invoking agent.'' w1))
         | Raises e \<Rightarrow> (''Error invoking agent.'', logging_exception ''Error invoking agent.'' w1))"

section \<open>process_claim_run_agents\<close>

text \<open>
  \<^verbatim>\<open>client.agents.get_agent(AGENTS_AND_QUERIES[name]["id"])\<close> followed by the construction
  of the agent object.  The agent is identified by its identifier.
\<close>

definition get_agent :: "env \<Rightarrow> string \<Rightarrow> py_exception + string" where
  "get_agent env name =
     (case dict_lookup name AGENTS_AND_QUERIES of
        None \<Rightarrow> Inl (PyExc ''KeyError'' ([CHR 0x27] @ name @ [CHR 0x27]))
      | Some ident \<Rightarrow>
          (case resolve env ident of
             Some e \<Rightarrow> Inl e
           | None \<Rightarrow> Inr ident))"

definition policy_query :: "env \<Rightarrow> json \<Rightarrow> json \<Rightarrow> json \<Rightarrow> string" where
  "policy_query env policy_number claim_type damage_claim =
     ''Based on the claim details: policy number '' @ py_format env policy_number @
     '', claim type '' @ py_format env claim_type @
     '', and damage claim amount '' @ py_format env damage_claim @ '' euros, '' @
     ''determine if the customer is appropriately covered under their policy.''"

definition fraud_query :: "env \<Rightarrow> json \<Rightarrow> string" where
  "fraud_query env claim_description =
     ''Using the following claim description: '' @ py_format env claim_description @ '', '' @
     ''evaluate whether there are any red flags or suspicious elements in the claim.''"

definition evaluator_query :: "string \<Rightarrow> string \<Rightarrow> string" where
  "evaluator_query policy_assessment fraud_assessment =
     ''Policy Assessment: '' @ policy_assessment @ ''\<newline>'' @
     ''Fraud Assessment: '' @ fraud_assessment @ ''\<newline>'' @
     ''Based on the above assessments, should the claim be approved or rejected? Provide a concise explanation.''"

text \<open>
  How the body of the outer \<^verbatim>\<open>try\<close> (lines 85-173) is left: it runs to its end, it
  executes \<^verbatim>\<open>return results\<close> on line 119, or it raises.
\<close>

datatype flow = Completed | Returned | Raised py_exception

text \<open>\<^verbatim>\<open>json.loads(str(text))\<close>, with the attempt recorded in the world.\<close>

definition loads :: "env \<Rightarrow> string \<Rightarrow> world \<Rightarrow> decoded \<times> world" where
  "loads env text w = (json_loads (interpreter env) text, w\<lparr>decoded := decoded w @ [text]\<rparr>)"

text \<open>
  Lines 103-119: decode the handler's text; on \<^verbatim>\<open>JSONDecodeError\<close> ask the same agent once
  more and decode its answer.  The result is the parsed claim, \<open>JSONDecodeError\<close> for the
  second decode error (line 116), or \<open>Fault e\<close> when \<^verbatim>\<open>json.loads\<close> raised an exception
  that neither \<^verbatim>\<open>except json.JSONDecodeError\<close> catches.
\<close>

definition parse_or_clarify :: "env \<Rightarrow> string \<Rightarrow> string \<Rightarrow> world \<Rightarrow> decoded \<times> world" where
  "parse_or_clarify env claim_handler structured_claim_json w1 =
     (case loads env structured_claim_json w1 of
        (Decoded parsed_claim, w) \<Rightarrow> (Decoded parsed_claim, w)
      | (Fault e, w) \<Rightarrow> (Fault e, w)
      | (JSONDecodeError, w) \<Rightarrow>
          (let w = logging_exception
                     ''Failed to parse JSON output from ClaimHandlerAgent. Attempting clarification...'' w;
               (clarification_output, w) = invoke_agent env claim_handler clarification_query w
           in case loads env clarification_output w of
                (Decoded parsed_claim, w) \<Rightarrow> (Decoded parsed_claim, w)
              | (Fault e, w) \<Rightarrow> (Fault e, w)
              | (JSONDecodeError, w) \<Rightarrow>
                  (JSONDecodeError,
                   logging_exception ''Clarification attempt failed, stop process.'' w)))"

text \<open>Lines 161-173: the evaluator.\<close>

definition evaluator_stage ::
  "env \<Rightarrow> string \<Rightarrow> string \<Rightarrow> (string \<times> pyval) list \<Rightarrow> world \<Rightarrow>
   flow \<times> (string \<times> pyval) list \<times> world" where
  "evaluator_stage env policy_assessment fraud_assessment results w4 =
     (case get_agent env ''ClaimEvaluatorAgent'' of
        Inl e \<Rightarrow> (Raised e, results, w4)
      | Inr claim_evaluator_agent \<Rightarrow>
          (let (claim_evaluator_assesment, w5) =
                 invoke_agent env claim_evaluator_agent
                   (evaluator_query policy_assessment fraud_assessment) w4;
               results = dict_set ''ClaimEvaluatorAgent Output'' (Str claim_evaluator_assesment) results
           in (Completed, results, w5)))"

text \<open>Lines 143-158: the fraud detector, then the evaluator.\<close>

definition fraud_stage ::
  "env \<Rightarrow> json \<Rightarrow> string \<Rightarrow> (string \<times> pyval) list \<Rightarrow> world \<Rightarrow>
   flow \<times> (string \<times> pyval) list \<times> world" where
  "fraud_stage env parsed_claim policy_assessment results w3 =
     (case get_field parsed_claim ''fraud_detector'' ''claim_description'' of
        Inl e \<Rightarrow> (Raised e, results, w3)
      | Inr claim_description \<Rightarrow>
          (case get_agent env ''FraudDetectionAgent'' of
             Inl e \<Rightarrow> (Raised e, results, w3)
           | Inr fraud_agent \<Rightarrow>
               (let (fraud_assessment, w4) =
                      invoke_agent env fraud_agent (fraud_query env claim_description) w3;
                    results = dict_set ''FraudDetectionAgent Output'' (Str fraud_assessment) results
                in evaluator_stage env policy_assessment fraud_assessment results w4)))"

text \<open>Lines 121-140: the parsed claim is stored, then the policy assessor, then the rest.\<close>

definition policy_stage ::
  "env \<Rightarrow> json \<Rightarrow> (string \<times> pyval) list \<Rightarrow> world \<Rightarrow>
   flow \<times> (string \<times> pyval) list \<times> world" where
  "policy_stage env parsed_claim results w2 =
     (let results = dict_set ''Parsed Claim'' (Json parsed_claim) results in
      case get_field parsed_claim ''policy_assessor'' ''policy_number'' of
        Inl e \<Rightarrow> (Raised e, results, w2)
      | Inr policy_number \<Rightarrow>
     (case get_field parsed_claim ''policy_assessor'' ''claim_type'' of
        Inl e \<Rightarrow> (Raised e, results, w2)
      | Inr claim_type \<Rightarrow>
     (case get_field parsed_claim ''policy_assessor'' ''damage_claim'' of
        Inl e \<Rightarrow> (Raised e, results, w2)
      | Inr damage_claim \<Rightarrow>
     (case get_agent env ''PolicyAssessorAgent'' of
        Inl e \<Rightarrow> (Raised e, results, w2)
      | Inr policy_agent \<Rightarrow>
          (let (policy_assessment, w3) =
                 invoke_agent env policy_agent
                   (policy_query env policy_number claim_type damage_claim) w2;
               results = dict_set ''PolicyAssessorAgent Output'' (Str policy_assessment) results
           in fraud_stage env parsed_claim policy_assessment results w3)))))"

text \<open>Lines 85-173: the body of the outer \<^verbatim>\<open>try\<close>.\<close>

definition try_block :: "env \<Rightarrow> string \<Rightarrow> world \<Rightarrow> flow \<times> (string \<times> pyval) list \<times> world" where
  "try_block env custom_claim_query w0 =
     (let results = [];
          full_claim_query = custom_claim_query @ JSON_FORMAT
      in
      case connect env of
        Some e \<Rightarrow> (Raised e, results, w0)
      | None \<Rightarrow>
     (case get_agent env ''ClaimHandlerAgent'' of
        Inl e \<Rightarrow> (Raised e, results, w0)
      | Inr claim_handler \<Rightarrow>
          (let claim_handler_query = full_claim_query;
               (structured_claim_json, w1) = invoke_agent env claim_handler claim_handler_query w0;
               results = dict_set ''ClaimHandlerAgent Output'' (Str structured_claim_json) results;
               (parsed, w2) = parse_or_clarify env claim_handler structured_claim_json w1
           in case parsed of
                JSONDecodeError \<Rightarrow>
                  (Returned,
                   dict_set ''error'' (Str ''Clarification attempt failed, stop process.'') results,
                   w2)
              | Fault e \<Rightarrow> (Raised e, results, w2)
              | Decoded parsed_claim \<Rightarrow> policy_stage env parsed_claim results w2)))"

text \<open>
  Lines 82-178: the body, and the handler of line 175 that stores \<^verbatim>\<open>str(e)\<close> under
  \<^verbatim>\<open>"error"\<close> before the results are returned.
\<close>

definition process_claim_run_agents ::
  "env \<Rightarrow> string \<Rightarrow> world \<Rightarrow> (string \<times> pyval) list \<times> world" where
  "process_claim_run_agents env custom_claim_query w =
     (case try_block env custom_claim_query w of
        (Raised e, results, w') \<Rightarrow>
          (dict_set ''error'' (Str (str_exc e)) results,
           logging_exception ''An unexpected error occurred .'' w')
      | (_, results, w') \<Rightarrow> (results, w'))"

section \<open>Describing a run\<close>

text \<open>
  The text \<open>invoke_agent\<close> hands back for an outcome of \<^verbatim>\<open>get_response\<close>, and what it logs.
\<close>

definition response_text :: "outcome \<Rightarrow> string" where
  "response_text oc =
     (case oc of
        Returns r \<Rightarrow> r
      | ReturnsTuple rs \<Rightarrow> (case rs of r # _ \<Rightarrow> r | [] \<Rightarrow> ''Error invoking agent.'')
      | Raises e \<Rightarrow> ''Error invoking agent.'')"

definition fault_log :: "outcome \<Rightarrow> string list" where
  "fault_log oc =
     (case oc of
        Returns r \<Rightarrow> []
      | ReturnsTuple rs \<Rightarrow> (case rs of r # _ \<Rightarrow> [] | [] \<Rightarrow> [''Error invoking agent.''])
      | Raises e \<Rightarrow> [''Error invoking agent.''])"

text \<open>
  The key under which the output of an agent is stored in the results, and the entry that
  a call leaves there.
\<close>

definition output_label :: "string \<Rightarrow> string" where
  "output_label agent =
     (case find (\<lambda>(name, ident). ident = agent) AGENTS_AND_QUERIES of
        Some (name, ident) \<Rightarrow> name @ '' Output''
      | None \<Rightarrow> [])"

definition recorded :: "call \<Rightarrow> string \<times> pyval" where
  "recorded c = (output_label (fst c), Str (response_text (snd (snd c))))"

definition new_calls :: "world \<Rightarrow> world \<Rightarrow> call list" where
  "new_calls w w' = drop (length (calls w)) (calls w')"

definition downstream_labels :: "string set" where
  "downstream_labels = {''Parsed Claim'', ''PolicyAssessorAgent Output'',
     ''FraudDetectionAgent Output'', ''ClaimEvaluatorAgent Output''}"

text \<open>
  The first call of a run (the claim handler with the full query), the clarification call
  that follows it when the first text does not decode, and the texts they hand back.
\<close>

definition handler_call :: "env \<Rightarrow> string \<Rightarrow> world \<Rightarrow> call" where
  "handler_call env q w =
     (''asst_8WPO5fEmxYN96N2yAoIjbrDb'', q @ JSON_FORMAT,
      get_response env (calls w) ''asst_8WPO5fEmxYN96N2yAoIjbrDb'' (q @ JSON_FORMAT))"

definition clarification_call :: "env \<Rightarrow> string \<Rightarrow> world \<Rightarrow> call" where
  "clarification_call env q w =
     (''asst_8WPO5fEmxYN96N2yAoIjbrDb'', clarification_query,
      get_response env (calls w @ [handler_call env q w]) ''asst_8WPO5fEmxYN96N2yAoIjbrDb''
        clarification_query)"

definition handler_response :: "env \<Rightarrow> string \<Rightarrow> world \<Rightarrow> string" where
  "handler_response env q w = response_text (snd (snd (handler_call env q w)))"

definition clarification_response :: "env \<Rightarrow> string \<Rightarrow> world \<Rightarrow> string" where
  "clarification_response env q w = response_text (snd (snd (clarification_call env q w)))"

text \<open>
  A section of the parsed claim can be read when the claim is a dict and the section is
  missing or is itself a dict; \<open>field_value\<close> is what \<^verbatim>\<open>.get(section, {}).get(key)\<close> then
  yields, \<^verbatim>\<open>None\<close> for whatever is missing.  \<open>agents_found\<close>: every agent of the table can
  be fetched.
\<close>

definition section_usable :: "json \<Rightarrow> string \<Rightarrow> bool" where
  "section_usable parsed_claim section =
     (case parsed_claim of
        JObject d \<Rightarrow>
          (case dict_lookup section d of
             None \<Rightarrow> True
           | Some (JObject sub) \<Rightarrow> True
           | Some _ \<Rightarrow> False)
      | _ \<Rightarrow> False)"

definition field_value :: "json \<Rightarrow> string \<Rightarrow> string \<Rightarrow> json" where
  "field_value parsed_claim section key =
     (case parsed_claim of
        JObject d \<Rightarrow>
          (case dict_lookup section d of
             Some (JObject sub) \<Rightarrow> (case dict_lookup key sub of Some v \<Rightarrow> v | None \<Rightarrow> JNull)
           | _ \<Rightarrow> JNull)
      | _ \<Rightarrow> JNull)"

definition agents_found :: "env \<Rightarrow> bool" where
  "agents_found env = list_all (\<lambda>(name, ident). resolve env ident = None) AGENTS_AND_QUERIES"

text \<open>
  A deterministic agent stub: what an agent answers depends on the agent and the query only,
  not on the calls made before.
\<close>

definition stateless :: "env \<Rightarrow> bool" where
  "stateless env = (\<forall>h h'. get_response env h = get_response env h')"

section \<open>Stub environments\<close>

text \<open>
  Concrete worlds and agents on which the statements below are run: an empty world, an
  environment in which nothing but the agents can fail, and agents with a fixed behaviour.
\<close>

definition world0 :: world where
  "world0 = \<lparr>calls = [], decoded = [], logged = []\<rparr>"

definition stub_env :: "(string \<Rightarrow> string \<Rightarrow> outcome) \<Rightarrow> env" where
  "stub_env f =
     \<lparr>connect = None, resolve = (\<lambda>_. None), get_response = (\<lambda>_. f), format_other = (\<lambda>_. []),
      interpreter = cpython_limits\<rparr>"

definition failing_agent :: "string \<Rightarrow> string \<Rightarrow> outcome" where
  "failing_agent agent query = Raises (PyExc ''RuntimeError'' ''connection lost'')"

definition prose_agent :: "string \<Rightarrow> string \<Rightarrow> outcome" where
  "prose_agent agent query = Returns ''Sorry, I can only answer in prose.''"

definition handler_json :: string where
  \<open>handler_json = ''{"policy_assessor":{"policy_number":"2","claim_type":"B","damage_claim":"4000"},"fraud_detector":{"claim_description":"rear-ended, bumper replacement"}}''\<close>

definition handler_json_claim :: json where
  "handler_json_claim =
     JObject
       [(''policy_assessor'',
         JObject [(''policy_number'', JString ''2''), (''claim_type'', JString ''B''),
                  (''damage_claim'', JString ''4000'')]),
        (''fraud_detector'',
         JObject [(''claim_description'', JString ''rear-ended, bumper replacement'')])]"

definition helpful_agent :: "string \<Rightarrow> string \<Rightarrow> outcome" where
  "helpful_agent agent query =
     (if agent = ''asst_8WPO5fEmxYN96N2yAoIjbrDb'' then Returns handler_json
      else if agent = ''asst_eUiaOd5KjushG1semhHqtZtX'' then Returns ''Covered under policy 2.''
      else if agent = ''asst_6dHVA9CV9BH3NAlootUQoj23'' then ReturnsTuple [''No red flags.'', ''thread'']
      else Returns ''Approve.'')"

definition fraud_agent_missing :: env where
  "fraud_agent_missing =
     (stub_env helpful_agent)
       \<lparr>resolve := (\<lambda>ident. if ident = ''asst_6dHVA9CV9BH3NAlootUQoj23''
                            then Some (PyExc ''HttpResponseError'' ''No assistant found'')
                            else None)\<rparr>"

definition flat_json :: string where
  \<open>flat_json = ''{"policy_assessor":"policy 2, type B","fraud_detector":{"claim_description":"rear-ended"}}''\<close>

definition flat_json_claim :: json where
  "flat_json_claim =
     JObject
       [(''policy_assessor'', JString ''policy 2, type B''),
        (''fraud_detector'', JObject [(''claim_description'', JString ''rear-ended'')])]"

definition flattening_agent :: "string \<Rightarrow> string \<Rightarrow> outcome" where
  "flattening_agent agent query =
     (if agent = ''asst_8WPO5fEmxYN96N2yAoIjbrDb'' then Returns flat_json else Returns ''Noted.'')"

definition terse_agent :: "string \<Rightarrow> string \<Rightarrow> outcome" where
  "terse_agent agent query =
     (if agent = ''asst_8WPO5fEmxYN96N2yAoIjbrDb'' then Returns ''{}'' else Returns ''Noted.'')"


text \<open>
  Handlers whose answer is valid JSON that an interpreter with the default settings does not
  decode: an integer of 4301 digits, alone and inside the \<^verbatim>\<open>policy_assessor\<close> section, and
  1000 arrays nested in each other.
\<close>

definition long_number :: string where
  "long_number = replicate 4301 (CHR ''7'')"

definition long_number_agent :: "string \<Rightarrow> string \<Rightarrow> outcome" where
  "long_number_agent agent query = Returns long_number"

definition long_policy_json :: string where
  \<open>long_policy_json = ''{"policy_assessor":{"policy_number":'' @ long_number @ ''}}''\<close>

fun nested :: "nat \<Rightarrow> json" where
  "nested 0 = JArray []"
| "nested (Suc n) = JArray [nested n]"

definition deep_arrays :: string where
  "deep_arrays = replicate 1000 (CHR ''['') @ replicate 1000 (CHR '']'')"

definition deep_arrays_agent :: "string \<Rightarrow> string \<Rightarrow> outcome" where
  "deep_arrays_agent agent query = Returns deep_arrays"

section \<open>How a run unfolds\<close>

lemma invoke_agent_eq:
  "invoke_agent env agent query w =
     (response_text (get_response env (calls w) agent query),
      w\<lparr>calls := calls w @ [(agent, query, get_response env (calls w) agent query)],
        logged := logged w @ fault_log (get_response env (calls w) agent query)\<rparr>)"
  by (simp add: invoke_agent_def response_text_def fault_log_def logging_exception_def Let_def
      split: outcome.splits list.splits)

lemma get_agent_simps:
  "get_agent env ''ClaimHandlerAgent'' =
     (case resolve env ''asst_8WPO5fEmxYN96N2yAoIjbrDb'' of Some e \<Rightarrow> Inl e
      | None \<Rightarrow> Inr ''asst_8WPO5fEmxYN96N2yAoIjbrDb'')"
  "get_agent env ''PolicyAssessorAgent'' =
     (case resolve env ''asst_eUiaOd5KjushG1semhHqtZtX'' of Some e \<Rightarrow> Inl e
      | None \<Rightarrow> Inr ''asst_eUiaOd5KjushG1semhHqtZtX'')"
  "get_agent env ''FraudDetectionAgent'' =
     (case resolve env ''asst_6dHVA9CV9BH3NAlootUQoj23'' of Some e \<Rightarrow> Inl e
      | None \<Rightarrow> Inr ''asst_6dHVA9CV9BH3NAlootUQoj23'')"
  "get_agent env ''ClaimEvaluatorAgent'' =
     (case resolve env ''asst_k2syPJidqJUINBz7g1jvzssN'' of Some e \<Rightarrow> Inl e
      | None \<Rightarrow> Inr ''asst_k2syPJidqJUINBz7g1jvzssN'')"
  by (simp_all add: get_agent_def AGENTS_AND_QUERIES_def)

lemma output_label_simps:
  "output_label ''asst_8WPO5fEmxYN96N2yAoIjbrDb'' = ''ClaimHandlerAgent Output''"
  "output_label ''asst_eUiaOd5KjushG1semhHqtZtX'' = ''PolicyAssessorAgent Output''"
  "output_label ''asst_6dHVA9CV9BH3NAlootUQoj23'' = ''FraudDetectionAgent Output''"
  "output_label ''asst_k2syPJidqJUINBz7g1jvzssN'' = ''ClaimEvaluatorAgent Output''"
  by (simp_all add: output_label_def AGENTS_AND_QUERIES_def)

lemma dict_set_fresh: "k \<notin> fst ` set d \<Longrightarrow> dict_set k v d = d @ [(k, v)]"
  by (induction d) auto

lemma queries_not_clarification:
  "policy_query env a b c \<noteq> clarification_query"
  "fraud_query env d \<noteq> clarification_query"
  "evaluator_query x y \<noteq> clarification_query"
  by (simp_all add: policy_query_def fraud_query_def evaluator_query_def clarification_query_def)

lemmas stage_simps = invoke_agent_eq get_agent_simps dict_set_fresh recorded_def
  output_label_simps queries_not_clarification queries_not_clarification [symmetric] Let_def

lemma evaluator_stage_summary:
  assumes run: "evaluator_stage env pa fa res w = (fl, res', w')"
      and fresh: "''ClaimEvaluatorAgent Output'' \<notin> fst ` set res"
  shows "fl \<noteq> Returned \<and> decoded w' = decoded w \<and>
     (\<exists>cs. calls w' = calls w @ cs \<and>
        map fst cs = take (length cs) [''asst_k2syPJidqJUINBz7g1jvzssN''] \<and>
        (fl = Completed \<longrightarrow> length cs = 1) \<and>
        clarification_query \<notin> (fst \<circ> snd) ` set cs \<and>
        res' = res @ map recorded cs)"
  using run fresh
  by (auto simp: evaluator_stage_def stage_simps split: sum.splits option.splits)

lemma fraud_stage_summary:
  assumes run: "fraud_stage env pc pa res w = (fl, res', w')"
      and fresh: "''FraudDetectionAgent Output'' \<notin> fst ` set res"
        "''ClaimEvaluatorAgent Output'' \<notin> fst ` set res"
  shows "fl \<noteq> Returned \<and> decoded w' = decoded w \<and>
     (\<exists>cs. calls w' = calls w @ cs \<and>
        map fst cs = take (length cs)
          [''asst_6dHVA9CV9BH3NAlootUQoj23'', ''asst_k2syPJidqJUINBz7g1jvzssN''] \<and>
        (fl = Completed \<longrightarrow> length cs = 2) \<and>
        clarification_query \<notin> (fst \<circ> snd) ` set cs \<and>
        res' = res @ map recorded cs)"
proof (cases "get_field pc ''fraud_detector'' ''claim_description''")
  case (Inl e)
  with run show ?thesis by (auto simp: fraud_stage_def)
next
  case (Inr cd)
  show ?thesis
  proof (cases "resolve env ''asst_6dHVA9CV9BH3NAlootUQoj23''")
    case (Some e)
    with run Inr show ?thesis by (auto simp: fraud_stage_def get_agent_simps)
  next
    case None
    define c where "c = (''asst_6dHVA9CV9BH3NAlootUQoj23'', fraud_query env cd,
        get_response env (calls w) ''asst_6dHVA9CV9BH3NAlootUQoj23'' (fraud_query env cd))"
    from run Inr None fresh obtain fa w4 where
      ev: "evaluator_stage env pa fa (res @ [recorded c]) w4 = (fl, res', w')"
      and w4: "calls w4 = calls w @ [c]" "decoded w4 = decoded w"
      by (simp add: fraud_stage_def stage_simps c_def)
    have "''ClaimEvaluatorAgent Output'' \<notin> fst ` set (res @ [recorded c])"
      using fresh by (simp add: c_def stage_simps)
    from evaluator_stage_summary [OF ev this] obtain cs where cs:
      "fl \<noteq> Returned" "decoded w' = decoded w4" "calls w' = calls w4 @ cs"
      "map fst cs = take (length cs) [''asst_k2syPJidqJUINBz7g1jvzssN'']"
      "fl = Completed \<longrightarrow> length cs = 1"
      "clarification_query \<notin> (fst \<circ> snd) ` set cs"
      "res' = (res @ [recorded c]) @ map recorded cs"
      by blast
    have "calls w' = calls w @ (c # cs)" "res' = res @ map recorded (c # cs)"
      "map fst (c # cs) = take (length (c # cs))
         [''asst_6dHVA9CV9BH3NAlootUQoj23'', ''asst_k2syPJidqJUINBz7g1jvzssN'']"
      "fl = Completed \<longrightarrow> length (c # cs) = 2"
      "clarification_query \<notin> (fst \<circ> snd) ` set (c # cs)"
      using cs w4 by (simp_all add: c_def stage_simps)
    with cs(1,2) w4(2) show ?thesis by metis
  qed
qed

lemma policy_stage_summary:
  assumes run: "policy_stage env pc res w = (fl, res', w')"
      and fresh: "fst ` set res \<inter> downstream_labels = {}"
  shows "fl \<noteq> Returned \<and> decoded w' = decoded w \<and>
     (\<exists>cs. calls w' = calls w @ cs \<and>
        map fst cs = take (length cs) [''asst_eUiaOd5KjushG1semhHqtZtX'',
           ''asst_6dHVA9CV9BH3NAlootUQoj23'', ''asst_k2syPJidqJUINBz7g1jvzssN''] \<and>
        (fl = Completed \<longrightarrow> length cs = 3) \<and>
        clarification_query \<notin> (fst \<circ> snd) ` set cs \<and>
        res' = res @ (''Parsed Claim'', Json pc) # map recorded cs)"
proof -
  let ?res1 = "res @ [(''Parsed Claim'', Json pc)]"
  have fr: "''Parsed Claim'' \<notin> fst ` set res" "''PolicyAssessorAgent Output'' \<notin> fst ` set res"
    "''FraudDetectionAgent Output'' \<notin> fst ` set res"
    "''ClaimEvaluatorAgent Output'' \<notin> fst ` set res"
    using fresh by (auto simp: downstream_labels_def)
  have stop: "fl \<noteq> Returned \<Longrightarrow> fl \<noteq> Completed \<Longrightarrow> w' = w \<Longrightarrow> res' = ?res1 \<Longrightarrow> ?thesis"
    by simp
  show ?thesis
  proof (cases "get_field pc ''policy_assessor'' ''policy_number''")
    case Inl
    with run fr show ?thesis by (intro stop) (auto simp: policy_stage_def dict_set_fresh)
  next
    case n: (Inr pn)
    show ?thesis
    proof (cases "get_field pc ''policy_assessor'' ''claim_type''")
      case Inl
      with run fr n show ?thesis by (intro stop) (auto simp: policy_stage_def dict_set_fresh)
    next
      case t: (Inr ct)
      show ?thesis
      proof (cases "get_field pc ''policy_assessor'' ''damage_claim''")
        case Inl
        with run fr n t show ?thesis
          by (intro stop) (auto simp: policy_stage_def dict_set_fresh)
      next
        case d: (Inr dc)
        show ?thesis
        proof (cases "resolve env ''asst_eUiaOd5KjushG1semhHqtZtX''")
          case Some
          with run fr n t d show ?thesis
            by (intro stop) (auto simp: policy_stage_def dict_set_fresh get_agent_simps)
        next
          case None
          define c where "c = (''asst_eUiaOd5KjushG1semhHqtZtX'', policy_query env pn ct dc,
            get_response env (calls w) ''asst_eUiaOd5KjushG1semhHqtZtX'' (policy_query env pn ct dc))"
          from run n t d None fr obtain pa w3 where
            fs: "fraud_stage env pc pa (?res1 @ [recorded c]) w3 = (fl, res', w')"
            and w3: "calls w3 = calls w @ [c]" "decoded w3 = decoded w"
            by (simp add: policy_stage_def stage_simps c_def)
          have "''FraudDetectionAgent Output'' \<notin> fst ` set (?res1 @ [recorded c])"
            "''ClaimEvaluatorAgent Output'' \<notin> fst ` set (?res1 @ [recorded c])"
            using fr by (simp_all add: c_def stage_simps)
          from fraud_stage_summary [OF fs this] obtain cs where cs:
            "fl \<noteq> Returned" "decoded w' = decoded w3" "calls w' = calls w3 @ cs"
            "map fst cs = take (length cs)
               [''asst_6dHVA9CV9BH3NAlootUQoj23'', ''asst_k2syPJidqJUINBz7g1jvzssN'']"
            "fl = Completed \<longrightarrow> length cs = 2"
            "clarification_query \<notin> (fst \<circ> snd) ` set cs"
            "res' = (?res1 @ [recorded c]) @ map recorded cs"
            by blast
          have "calls w' = calls w @ (c # cs)"
            "res' = res @ (''Parsed Claim'', Json pc) # map recorded (c # cs)"
            "map fst (c # cs) = take (length (c # cs))
               [''asst_eUiaOd5KjushG1semhHqtZtX'', ''asst_6dHVA9CV9BH3NAlootUQoj23'',
                ''asst_k2syPJidqJUINBz7g1jvzssN'']"
            "fl = Completed \<longrightarrow> length (c # cs) = 3"
            "clarification_query \<notin> (fst \<circ> snd) ` set (c # cs)"
            using cs w3 by (simp_all add: c_def stage_simps)
          with cs(1,2) w3(2) show ?thesis by metis
        qed
      qed
    qed
  qed
qed

lemma try_block_cases [consumes 1, case_names setup_fault parsed fatal decode_fault]:
  assumes run: "try_block env q w = (fl, rec, w')"
  obtains
    (setup_fault) e where "fl = Raised e" "rec = []" "w' = w"
      "connect env = Some e \<or> resolve env ''asst_8WPO5fEmxYN96N2yAoIjbrDb'' = Some e"
  | (parsed) pc w2 where
      "connect env = None" "resolve env ''asst_8WPO5fEmxYN96N2yAoIjbrDb'' = None"
      "policy_stage env pc [(''ClaimHandlerAgent Output'', Str (handler_response env q w))] w2
         = (fl, rec, w')"
      "(json_loads (interpreter env) (handler_response env q w) = Decoded pc \<and>
          calls w2 = calls w @ [handler_call env q w] \<and>
          decoded w2 = decoded w @ [handler_response env q w]) \<or>
       (json_loads (interpreter env) (handler_response env q w) = JSONDecodeError \<and>
          json_loads (interpreter env) (clarification_response env q w) = Decoded pc \<and>
          calls w2 = calls w @ [handler_call env q w, clarification_call env q w] \<and>
          decoded w2 = decoded w @ [handler_response env q w, clarification_response env q w])"
  | (fatal)
      "connect env = None" "resolve env ''asst_8WPO5fEmxYN96N2yAoIjbrDb'' = None"
      "json_loads (interpreter env) (handler_response env q w) = JSONDecodeError"
      "json_loads (interpreter env) (clarification_response env q w) = JSONDecodeError"
      "fl = Returned"
      "rec = [(''ClaimHandlerAgent Output'', Str (handler_response env q w)),
              (''error'', Str ''Clarification attempt failed, stop process.'')]"
      "calls w' = calls w @ [handler_call env q w, clarification_call env q w]"
      "decoded w' = decoded w @ [handler_response env q w, clarification_response env q w]"
  | (decode_fault) e where
      "connect env = None" "resolve env ''asst_8WPO5fEmxYN96N2yAoIjbrDb'' = None"
      "fl = Raised e"
      "rec = [(''ClaimHandlerAgent Output'', Str (handler_response env q w))]"
      "(json_loads (interpreter env) (handler_response env q w) = Fault e \<and>
          calls w' = calls w @ [handler_call env q w] \<and>
          decoded w' = decoded w @ [handler_response env q w]) \<or>
       (json_loads (interpreter env) (handler_response env q w) = JSONDecodeError \<and>
          json_loads (interpreter env) (clarification_response env q w) = Fault e \<and>
          calls w' = calls w @ [handler_call env q w, clarification_call env q w] \<and>
          decoded w' = decoded w @ [handler_response env q w, clarification_response env q w])"
proof (cases "connect env")
  case (Some e)
  with run show ?thesis by (intro setup_fault [of e]) (auto simp: try_block_def)
next
  case c: None
  note defs = try_block_def parse_or_clarify_def loads_def logging_exception_def
    stage_simps handler_response_def handler_call_def clarification_response_def
    clarification_call_def
  show ?thesis
  proof (cases "resolve env ''asst_8WPO5fEmxYN96N2yAoIjbrDb''")
    case (Some e)
    with run c show ?thesis
      by (intro setup_fault [of e]) (auto simp: try_block_def get_agent_simps)
  next
    case r: None
    show ?thesis
    proof (cases "json_loads (interpreter env) (handler_response env q w)")
      case (Decoded pc)
      define w2 where "w2 = w\<lparr>calls := calls w @ [handler_call env q w],
        logged := logged w @ fault_log (snd (snd (handler_call env q w))),
        decoded := decoded w @ [handler_response env q w]\<rparr>"
      from run c r Decoded
      have "policy_stage env pc [(''ClaimHandlerAgent Output'', Str (handler_response env q w))] w2
              = (fl, rec, w')"
        by (simp add: try_block_def parse_or_clarify_def loads_def stage_simps
            handler_response_def handler_call_def w2_def)
      then show ?thesis
        using c r Decoded by (intro parsed [of pc w2]) (simp_all add: w2_def)
    next
      case (Fault e)
      with run c r show ?thesis
        by (intro decode_fault [of e]) (auto simp: defs)
    next
      case n1: JSONDecodeError
      show ?thesis
      proof (cases "json_loads (interpreter env) (clarification_response env q w)")
        case (Decoded pc)
        define w2 where "w2 = w\<lparr>calls := calls w @ [handler_call env q w, clarification_call env q w],
          logged := logged w @ fault_log (snd (snd (handler_call env q w))) @
            [''Failed to parse JSON output from ClaimHandlerAgent. Attempting clarification...''] @
            fault_log (snd (snd (clarification_call env q w))),
          decoded := decoded w @ [handler_response env q w, clarification_response env q w]\<rparr>"
        from run c r n1 Decoded
        have "policy_stage env pc [(''ClaimHandlerAgent Output'', Str (handler_response env q w))] w2
                = (fl, rec, w')"
          by (simp add: defs w2_def)
        then show ?thesis
          using c r n1 Decoded by (intro parsed [of pc w2]) (simp_all add: w2_def)
      next
        case (Fault e)
        with run c r n1 show ?thesis
          by (intro decode_fault [of e]) (auto simp: defs)
      next
        case n2: JSONDecodeError
        with run c r n1 show ?thesis
          by (intro fatal) (auto simp: defs)
      qed
    qed
  qed
qed

lemma full_query_not_clarification: "q @ JSON_FORMAT \<noteq> clarification_query"
proof
  assume "q @ JSON_FORMAT = clarification_query"
  then have "last (q @ JSON_FORMAT) = last clarification_query" by simp
  then show False by (simp add: JSON_FORMAT_def clarification_query_def)
qed

lemma dict_lookup_dict_set:
  "dict_lookup k (dict_set k' v d) = (if k = k' then Some v else dict_lookup k d)"
  by (induction d) auto

lemma process_via_try_block:
  assumes "try_block env q w = (fl, rec, w')"
  shows "fst (process_claim_run_agents env q w) =
           (case fl of Raised e \<Rightarrow> dict_set ''error'' (Str (str_exc e)) rec | _ \<Rightarrow> rec)"
    and "calls (snd (process_claim_run_agents env q w)) = calls w'"
    and "decoded (snd (process_claim_run_agents env q w)) = decoded w'"
  using assms
  by (simp_all add: process_claim_run_agents_def logging_exception_def split: flow.splits)

lemma handler_entry_fresh:
  "fst ` set [(''ClaimHandlerAgent Output'', v)] \<inter> downstream_labels = {}"
  by (simp add: downstream_labels_def)

lemma downstream_agents:
  assumes "map fst cs = take (length cs) [''asst_eUiaOd5KjushG1semhHqtZtX'',
           ''asst_6dHVA9CV9BH3NAlootUQoj23'', ''asst_k2syPJidqJUINBz7g1jvzssN'']"
  shows "fst ` set cs \<subseteq> {''asst_eUiaOd5KjushG1semhHqtZtX'',
           ''asst_6dHVA9CV9BH3NAlootUQoj23'', ''asst_k2syPJidqJUINBz7g1jvzssN''}"
    and "length cs \<le> 3"
proof -
  have "set (map fst cs) \<subseteq> set [''asst_eUiaOd5KjushG1semhHqtZtX'',
           ''asst_6dHVA9CV9BH3NAlootUQoj23'', ''asst_k2syPJidqJUINBz7g1jvzssN'']"
    by (subst assms) (rule set_take_subset)
  then show "fst ` set cs \<subseteq> {''asst_eUiaOd5KjushG1semhHqtZtX'',
           ''asst_6dHVA9CV9BH3NAlootUQoj23'', ''asst_k2syPJidqJUINBz7g1jvzssN''}"
    by simp
  have "length (map fst cs) \<le> 3" by (subst assms) simp
  then show "length cs \<le> 3" by simp
qed

lemma downstream_recorded:
  assumes "fst ` set cs \<subseteq> {''asst_eUiaOd5KjushG1semhHqtZtX'',
           ''asst_6dHVA9CV9BH3NAlootUQoj23'', ''asst_k2syPJidqJUINBz7g1jvzssN''}"
  shows "fst ` set (map recorded cs) \<subseteq> {''PolicyAssessorAgent Output'',
           ''FraudDetectionAgent Output'', ''ClaimEvaluatorAgent Output''}"
  using assms by (auto simp: recorded_def output_label_simps)

lemma agents_found_simps:
  "agents_found env \<longleftrightarrow>
     resolve env ''asst_8WPO5fEmxYN96N2yAoIjbrDb'' = None \<and>
     resolve env ''asst_eUiaOd5KjushG1semhHqtZtX'' = None \<and>
     resolve env ''asst_6dHVA9CV9BH3NAlootUQoj23'' = None \<and>
     resolve env ''asst_k2syPJidqJUINBz7g1jvzssN'' = None"
  by (simp add: agents_found_def AGENTS_AND_QUERIES_def)

lemma get_field_usable:
  "section_usable pc section \<Longrightarrow> get_field pc section key = Inr (field_value pc section key)"
  by (auto simp: section_usable_def field_value_def get_field_def py_get_def
      split: json.splits option.splits)



lemma policy_stage_ok:
  assumes "section_usable pc ''policy_assessor''" and "section_usable pc ''fraud_detector''"
      and "resolve env ''asst_eUiaOd5KjushG1semhHqtZtX'' = None"
      and "resolve env ''asst_6dHVA9CV9BH3NAlootUQoj23'' = None"
      and "resolve env ''asst_k2syPJidqJUINBz7g1jvzssN'' = None"
  shows "\<exists>cP cF cE w'.
     policy_stage env pc res w =
       (Completed,
        dict_set ''ClaimEvaluatorAgent Output'' (Str (response_text (snd (snd cE))))
          (dict_set ''FraudDetectionAgent Output'' (Str (response_text (snd (snd cF))))
             (dict_set ''PolicyAssessorAgent Output'' (Str (response_text (snd (snd cP))))
                (dict_set ''Parsed Claim'' (Json pc) res))),
        w') \<and>
     calls w' = calls w @ [cP, cF, cE] \<and>
     fst cP = ''asst_eUiaOd5KjushG1semhHqtZtX'' \<and>
     fst (snd cP) = policy_query env (field_value pc ''policy_assessor'' ''policy_number'')
        (field_value pc ''policy_assessor'' ''claim_type'')
        (field_value pc ''policy_assessor'' ''damage_claim'') \<and>
     fst cF = ''asst_6dHVA9CV9BH3NAlootUQoj23'' \<and>
     fst (snd cF) = fraud_query env (field_value pc ''fraud_detector'' ''claim_description'') \<and>
     fst cE = ''asst_k2syPJidqJUINBz7g1jvzssN'' \<and>
     fst (snd cE) = evaluator_query (response_text (snd (snd cP))) (response_text (snd (snd cF)))"
  using assms
  by (simp add: policy_stage_def fraud_stage_def evaluator_stage_def invoke_agent_eq
      get_agent_simps get_field_usable Let_def)

lemma evaluator_stage_indep:
  assumes "stateless env"
  shows "fst (evaluator_stage env pa fa res w) = fst (evaluator_stage env pa fa res v) \<and>
         fst (snd (evaluator_stage env pa fa res w)) = fst (snd (evaluator_stage env pa fa res v))"
proof -
  from assms have "get_response env (calls w) = get_response env (calls v)"
    by (simp add: stateless_def)
  then show ?thesis
    by (simp add: evaluator_stage_def invoke_agent_eq get_agent_simps Let_def split: option.splits)
qed

lemma fraud_stage_indep:
  assumes "stateless env"
  shows "fst (fraud_stage env pc pa res w) = fst (fraud_stage env pc pa res v) \<and>
         fst (snd (fraud_stage env pc pa res w)) = fst (snd (fraud_stage env pc pa res v))"
proof -
  from assms have gr: "get_response env (calls w) = get_response env (calls v)"
    by (simp add: stateless_def)
  show ?thesis
  proof (cases "get_field pc ''fraud_detector'' ''claim_description''")
    case Inl
    then show ?thesis by (simp add: fraud_stage_def)
  next
    case (Inr cd)
    show ?thesis
    proof (cases "resolve env ''asst_6dHVA9CV9BH3NAlootUQoj23''")
      case Some
      with Inr show ?thesis by (simp add: fraud_stage_def get_agent_simps)
    next
      case None
      with Inr show ?thesis
        by (simp add: fraud_stage_def get_agent_simps invoke_agent_eq Let_def gr)
          (rule evaluator_stage_indep [OF assms])
    qed
  qed
qed

lemma policy_stage_indep:
  assumes "stateless env"
  shows "fst (policy_stage env pc res w) = fst (policy_stage env pc res v) \<and>
         fst (snd (policy_stage env pc res w)) = fst (snd (policy_stage env pc res v))"
proof -
  from assms have gr: "get_response env (calls w) = get_response env (calls v)"
    by (simp add: stateless_def)
  show ?thesis
  proof (cases "\<exists>pn ct dc. get_field pc ''policy_assessor'' ''policy_number'' = Inr pn \<and>
      get_field pc ''policy_assessor'' ''claim_type'' = Inr ct \<and>
      get_field pc ''policy_assessor'' ''damage_claim'' = Inr dc \<and>
      resolve env ''asst_eUiaOd5KjushG1semhHqtZtX'' = None")
    case True
    then obtain pn ct dc where "get_field pc ''policy_assessor'' ''policy_number'' = Inr pn"
      "get_field pc ''policy_assessor'' ''claim_type'' = Inr ct"
      "get_field pc ''policy_assessor'' ''damage_claim'' = Inr dc"
      "resolve env ''asst_eUiaOd5KjushG1semhHqtZtX'' = None"
      by blast
    then show ?thesis
      by (simp add: policy_stage_def get_agent_simps invoke_agent_eq Let_def gr)
        (rule fraud_stage_indep [OF assms])
  next
    case False
    then show ?thesis
      by (auto simp: policy_stage_def get_agent_simps Let_def split: sum.splits option.splits)
  qed
qed

lemma try_block_indep:
  assumes "stateless env"
  shows "fst (try_block env q w) = fst (try_block env q v) \<and>
         fst (snd (try_block env q w)) = fst (snd (try_block env q v))"
proof -
  define f where "f = get_response env []"
  from assms have f: "get_response env h = f" for h
    by (simp add: stateless_def f_def)
  define out1 where "out1 = response_text (f ''asst_8WPO5fEmxYN96N2yAoIjbrDb'' (q @ JSON_FORMAT))"
  define out2 where "out2 = response_text (f ''asst_8WPO5fEmxYN96N2yAoIjbrDb'' clarification_query)"
  note defs = try_block_def parse_or_clarify_def loads_def logging_exception_def invoke_agent_eq
    get_agent_simps Let_def f out1_def [symmetric] out2_def [symmetric]
  show ?thesis
  proof (cases "connect env")
    case Some
    then show ?thesis by (simp add: try_block_def)
  next
    case c: None
    show ?thesis
    proof (cases "resolve env ''asst_8WPO5fEmxYN96N2yAoIjbrDb''")
      case Some
      with c show ?thesis by (simp add: try_block_def get_agent_simps)
    next
      case r: None
      show ?thesis
      proof (cases "json_loads (interpreter env) out1")
        case (Decoded pc)
        with c r show ?thesis
          by (simp add: defs) (rule policy_stage_indep [OF assms])
      next
        case (Fault e)
        with c r show ?thesis by (simp add: defs)
      next
        case n1: JSONDecodeError
        show ?thesis
        proof (cases "json_loads (interpreter env) out2")
          case (Decoded pc)
          with c r n1 show ?thesis
            by (simp add: defs) (rule policy_stage_indep [OF assms])
        next
          case (Fault e)
          with c r n1 show ?thesis by (simp add: defs)
        next
          case JSONDecodeError
          with c r n1 show ?thesis by (simp add: defs)
        qed
      qed
    qed
  qed
qed

section \<open>Runs of the stub environments\<close>

lemma json_loads_sentinel: "json_loads lim ''Error invoking agent.'' = JSONDecodeError"
  by code_simp

lemma json_loads_prose: "json_loads lim ''Sorry, I can only answer in prose.'' = JSONDecodeError"
  by code_simp

lemma json_loads_handler_json: "json_loads cpython_limits handler_json = Decoded handler_json_claim"
  unfolding handler_json_def handler_json_claim_def by code_simp

lemma world0_simps: "calls world0 = []" "decoded world0 = []" "logged world0 = []"
  by (simp_all add: world0_def)

lemmas run_simps = try_block_def parse_or_clarify_def policy_stage_def fraud_stage_def
  evaluator_stage_def loads_def logging_exception_def invoke_agent_eq get_agent_simps
  response_text_def fault_log_def stub_env_def world0_def Let_def

lemma prose_run:
  "fst (try_block (stub_env prose_agent) CLAIM_QUERY world0) = Returned"
  by (simp add: run_simps prose_agent_def json_loads_prose)

lemma missing_run:
  "fst (try_block fraud_agent_missing CLAIM_QUERY world0) =
     Raised (PyExc ''HttpResponseError'' ''No assistant found'')"
  "fst (snd (try_block fraud_agent_missing CLAIM_QUERY world0)) =
     [(''ClaimHandlerAgent Output'', Str handler_json),
      (''Parsed Claim'', Json handler_json_claim),
      (''PolicyAssessorAgent Output'', Str ''Covered under policy 2.'')]"
  by (simp_all add: run_simps fraud_agent_missing_def helpful_agent_def json_loads_handler_json
      handler_json_claim_def get_field_def py_get_def)

lemma json_loads_flat_json: "json_loads cpython_limits flat_json = Decoded flat_json_claim"
  unfolding flat_json_def flat_json_claim_def by code_simp

lemma json_loads_empty_object: "json_loads cpython_limits ''{}'' = Decoded (JObject [])"
  by code_simp

lemma stub_env_simps:
  "connect (stub_env f) = None" "resolve (stub_env f) ident = None"
  "get_response (stub_env f) h = f" "interpreter (stub_env f) = cpython_limits"
  by (simp_all add: stub_env_def)


text \<open>
  At the limits of the interpreter a valid text is not decoded: \<^verbatim>\<open>json.loads\<close> raises
  \<^verbatim>\<open>ValueError\<close> on an integer of 4301 digits, wherever it stands, and
  \<^verbatim>\<open>RecursionError\<close> on arrays nested deeper than the recursion left.
\<close>

lemma long_number_Cons: "long_number = CHR ''7'' # replicate 4300 (CHR ''7'')"
proof -
  have "(4301::nat) = Suc 4300" by simp
  then show ?thesis unfolding long_number_def by (simp only: replicate_Suc)
qed

lemma scan_once_sevens:
  "scan_once lim depth (CHR ''7'' # replicate n (CHR ''7'')) =
     (case py_int lim (CHR ''7'' # replicate n (CHR ''7'')) of
        Inl e \<Rightarrow> Broke e
      | Inr i \<Rightarrow> Done (JInt i) [])"
  by (subst scan_once.simps)
    (simp add: match_number_def match_integer_def match_frac_def match_exp_def is_digit_def
      takeWhile_replicate dropWhile_replicate split: sum.splits)

lemma json_loads_long_number:
  "json_loads cpython_limits long_number = Fault (int_digits_error 4300 4301)"
  "json_loads no_limits long_number = Decoded (JInt (int (nat_of_digits long_number)))"
  by (simp_all add: json_loads_def long_number_Cons skip_ws_def is_ws_def scan_once_sevens
      py_int_def cpython_limits_def no_limits_def)

lemma int_digits_error_text:
  "str_exc (int_digits_error 4300 4301) =
     ''Exceeds the limit (4300 digits) for integer string conversion: value has 4301 digits; use sys.set_int_max_str_digits() to increase the limit''"
  by code_simp

lemma scan_once_sevens_then:
  assumes "\<not> is_digit x" "x \<noteq> CHR ''.''" "x \<noteq> CHR ''e''" "x \<noteq> CHR ''E''"
  shows "scan_once lim depth (CHR ''7'' # replicate n (CHR ''7'') @ x # rest) =
     (case py_int lim (CHR ''7'' # replicate n (CHR ''7'')) of
        Inl e \<Rightarrow> Broke e
      | Inr i \<Rightarrow> Done (JInt i) (x # rest))"
proof -
  have d: "is_digit (CHR ''7'')" by (simp add: is_digit_def)
  have t: "takeWhile is_digit (replicate n (CHR ''7'') @ x # rest) = replicate n (CHR ''7'')"
    using assms(1) d by (induction n) simp_all
  have dr: "dropWhile is_digit (replicate n (CHR ''7'') @ x # rest) = x # rest"
    using assms(1) d by (induction n) simp_all
  have mi: "match_integer (CHR ''7'' # replicate n (CHR ''7'') @ x # rest) =
      Some (CHR ''7'' # replicate n (CHR ''7''), x # rest)"
    by (simp add: match_integer_def d t dr)
  have mf: "match_frac (x # rest) = ([], x # rest)"
    using assms(2) by (simp add: match_frac_def split: list.splits)
  have me: "match_exp (x # rest) = ([], x # rest)"
    using assms(3,4) by (simp add: match_exp_def)
  have mn: "match_number lim (CHR ''7'' # replicate n (CHR ''7'') @ x # rest) =
     (case py_int lim (CHR ''7'' # replicate n (CHR ''7'')) of
        Inl e \<Rightarrow> Broke e
      | Inr i \<Rightarrow> Done (JInt i) (x # rest))"
    by (simp add: match_number_def mi mf me)
  show ?thesis
    by (subst scan_once.simps) (simp add: mn split: sum.splits)
qed

lemma json_loads_long_policy_json:
  "json_loads cpython_limits long_policy_json = Fault (int_digits_error 4300 4301)"
  "json_loads no_limits long_policy_json =
     Decoded (JObject [(''policy_assessor'',
        JObject [(''policy_number'', JInt (int (nat_of_digits long_number)))])])"
  by (simp_all add: json_loads_def long_policy_json_def long_number_Cons skip_ws_def is_ws_def
      scan_once.simps [of _ _ "CHR ''{'' # _"] JSONObject_loop.simps py_scanstring.simps
      scan_once_sevens_then is_digit_def exhausted_def dict_of_pairs_def
      py_int_def cpython_limits_def no_limits_def)

lemma skip_ws_bracket:
  "skip_ws (CHR ''['' # s) = CHR ''['' # s" "skip_ws (CHR '']'' # s) = CHR '']'' # s"
  by (simp_all add: skip_ws_def is_ws_def)

lemma scan_once_nested:
  "recursion_room lim = None \<Longrightarrow>
   scan_once lim depth (replicate (Suc n) (CHR ''['') @ replicate (Suc n) (CHR '']'') @ rest) =
     Done (nested n) rest"
proof (induction n arbitrary: depth rest)
  case 0
  then show ?case
    by (subst scan_once.simps) (simp add: exhausted_def skip_ws_bracket)
next
  case (Suc n)
  have i: "scan_once lim (Suc depth)
      (CHR ''['' # replicate n (CHR ''['') @ CHR '']'' # CHR '']'' # replicate n (CHR '']'') @ rest) =
      Done (nested n) (CHR '']'' # rest)"
    using Suc.IH [OF Suc.prems, of "Suc depth" "CHR '']'' # rest"]
    by (simp add: replicate_app_Cons_same)
  have l: "JSONArray_loop lim (Suc depth)
      (CHR ''['' # replicate n (CHR ''['') @ CHR '']'' # CHR '']'' # replicate n (CHR '']'') @ rest) [] =
      Done (nested (Suc n)) rest"
    by (subst JSONArray_loop_unguarded) (simp add: i skip_ws_bracket)
  show ?case
    by (subst scan_once.simps) (simp add: exhausted_def Suc.prems skip_ws_bracket l)
qed

lemma scan_once_exhausted:
  "recursion_room lim = Some (depth + k) \<Longrightarrow>
   scan_once lim depth (replicate (Suc k) (CHR ''['') @ rest) = Broke (RecursionError ''array'')"
proof (induction k arbitrary: depth)
  case 0
  then show ?case
    by (subst scan_once.simps) (simp add: exhausted_def)
next
  case (Suc k)
  from Suc.prems have "recursion_room lim = Some (Suc depth + k)" by simp
  from Suc.IH [OF this]
  have i: "scan_once lim (Suc depth) (CHR ''['' # replicate k (CHR ''['') @ rest) =
      Broke (RecursionError ''array'')"
    by simp
  have l: "JSONArray_loop lim (Suc depth) (CHR ''['' # replicate k (CHR ''['') @ rest) [] =
      Broke (RecursionError ''array'')"
    by (subst JSONArray_loop_unguarded) (simp add: i)
  show ?case
    by (subst scan_once.simps) (simp add: exhausted_def Suc.prems skip_ws_bracket l)
qed

lemma deep_arrays_split:
  "deep_arrays = replicate (Suc 999) (CHR ''['') @ replicate (Suc 999) (CHR '']'') @ []"
  "deep_arrays = replicate (Suc 900) (CHR ''['') @ replicate 99 (CHR ''['') @ replicate 1000 (CHR '']'')"
proof -
  have "(1000::nat) = Suc 999" by simp
  then show "deep_arrays = replicate (Suc 999) (CHR ''['') @ replicate (Suc 999) (CHR '']'') @ []"
    unfolding deep_arrays_def by (simp only: append_Nil2)
  have "(1000::nat) = Suc 900 + 99" by simp
  then have "replicate 1000 (CHR ''['') = replicate (Suc 900) (CHR ''['') @ replicate 99 (CHR ''['')"
    by (simp only: replicate_add)
  then show "deep_arrays = replicate (Suc 900) (CHR ''['') @ replicate 99 (CHR ''['') @ replicate 1000 (CHR '']'')"
    unfolding deep_arrays_def by (simp only: append_assoc)
qed

lemma skip_ws_Nil: "skip_ws [] = []"
  by (simp add: skip_ws_def)

lemma deep_arrays_head: "skip_ws deep_arrays = deep_arrays"
  by (subst (1 2) deep_arrays_split(1)) (simp only: replicate_Suc append_Cons skip_ws_bracket)

lemma json_loads_deep_arrays:
  "json_loads cpython_limits deep_arrays = Fault (RecursionError ''array'')"
  "json_loads no_limits deep_arrays = Decoded (nested 999)"
proof -
  have "recursion_room cpython_limits = Some (0 + 900)" by (simp add: cpython_limits_def)
  from scan_once_exhausted [OF this]
  have "scan_once cpython_limits 0 deep_arrays = Broke (RecursionError ''array'')"
    by (subst deep_arrays_split(2))
  then show "json_loads cpython_limits deep_arrays = Fault (RecursionError ''array'')"
    by (simp add: json_loads_def deep_arrays_head)
  have "recursion_room no_limits = None" by (simp add: no_limits_def)
  from scan_once_nested [OF this]
  have "scan_once no_limits 0 deep_arrays = Done (nested 999) []"
    by (subst deep_arrays_split(1))
  then show "json_loads no_limits deep_arrays = Decoded (nested 999)"
    by (simp add: json_loads_def deep_arrays_head skip_ws_Nil)
qed

lemma RecursionError_text:
  "str_exc (RecursionError ''array'') =
     ''maximum recursion depth exceeded while decoding a JSON array from a unicode string''"
  by code_simp

section \<open>Claims\<close>

subsection \<open>C1: two decode failures end the run\<close>

text \<open>
  C1. In a run that reaches the claim handler (the connection is set up and the handler is
  found), if neither the handler's text nor the clarification text decodes as JSON, the
  returned results hold the handler's output and the entry \<^verbatim>\<open>"error"\<close> with the fixed
  message of line 118, and the run made exactly two agent calls, both to the claim handler:
  the policy assessor, the fraud detector and the evaluator are never invoked.
\<close>

theorem fatal_parse_stops_pipeline:
  assumes "connect env = None"
      and "resolve env ''asst_8WPO5fEmxYN96N2yAoIjbrDb'' = None"
      and "json_loads (interpreter env) (handler_response env q w) = JSONDecodeError"
      and "json_loads (interpreter env) (clarification_response env q w) = JSONDecodeError"
  shows "fst (process_claim_run_agents env q w) =
           [(''ClaimHandlerAgent Output'', Str (handler_response env q w)),
            (''error'', Str ''Clarification attempt failed, stop process.'')] \<and>
         new_calls w (snd (process_claim_run_agents env q w)) =
           [handler_call env q w, clarification_call env q w] \<and>
         map fst (new_calls w (snd (process_claim_run_agents env q w))) =
           [''asst_8WPO5fEmxYN96N2yAoIjbrDb'', ''asst_8WPO5fEmxYN96N2yAoIjbrDb'']"
proof -
  obtain fl rec w' where run: "try_block env q w = (fl, rec, w')"
    by (cases "try_block env q w") auto
  from run show ?thesis
  proof (cases rule: try_block_cases)
    case (setup_fault e)
    with assms show ?thesis by auto
  next
    case (parsed pc w2)
    with assms show ?thesis by auto
  next
    case fatal
    with run show ?thesis
      by (simp add: process_claim_run_agents_def new_calls_def handler_call_def
          clarification_call_def)
  next
    case (decode_fault e)
    with assms show ?thesis by auto
  qed
qed

theorem fatal_parse_stops_pipeline_witness:
  "fst (process_claim_run_agents (stub_env prose_agent) CLAIM_QUERY world0) =
     [(''ClaimHandlerAgent Output'', Str ''Sorry, I can only answer in prose.''),
      (''error'', Str ''Clarification attempt failed, stop process.'')] \<and>
   map fst (new_calls world0 (snd (process_claim_run_agents (stub_env prose_agent) CLAIM_QUERY world0))) =
     [''asst_8WPO5fEmxYN96N2yAoIjbrDb'', ''asst_8WPO5fEmxYN96N2yAoIjbrDb'']"
proof -
  have h: "handler_response (stub_env prose_agent) CLAIM_QUERY world0 =
      ''Sorry, I can only answer in prose.''"
    and c: "clarification_response (stub_env prose_agent) CLAIM_QUERY world0 =
      ''Sorry, I can only answer in prose.''"
    by (simp_all add: handler_response_def clarification_response_def handler_call_def
        clarification_call_def stub_env_def prose_agent_def response_text_def)
  have "connect (stub_env prose_agent) = None"
    "resolve (stub_env prose_agent) ''asst_8WPO5fEmxYN96N2yAoIjbrDb'' = None"
    "json_loads (interpreter (stub_env prose_agent))
       (handler_response (stub_env prose_agent) CLAIM_QUERY world0) = JSONDecodeError"
    "json_loads (interpreter (stub_env prose_agent))
       (clarification_response (stub_env prose_agent) CLAIM_QUERY world0) = JSONDecodeError"
    by (simp_all add: h c json_loads_prose) (simp_all add: stub_env_def)
  from fatal_parse_stops_pipeline [OF this] show ?thesis
    by (simp add: h handler_call_def clarification_call_def)
qed

subsection \<open>C2: a failing stage call does not stop the pipeline\<close>



subsection \<open>C3: invoke_agent turns a fault into the sentinel\<close>

text \<open>
  C3, as amended. Whatever the agent and the query, if \<^verbatim>\<open>get_response\<close> raises, then
  \<open>invoke_agent\<close> returns the fixed text \<^verbatim>\<open>"Error invoking agent."\<close> (with its full stop),
  logs that message once, and returns normally: the call is recorded and nothing is raised.
\<close>

theorem invoke_agent_fault:
  assumes "get_response env (calls w) agent query = Raises e"
  shows "invoke_agent env agent query w =
     (''Error invoking agent.'',
      w\<lparr>calls := calls w @ [(agent, query, Raises e)],
        logged := logged w @ [''Error invoking agent.'']\<rparr>)"
  using assms by (simp add: invoke_agent_def logging_exception_def)

theorem invoke_agent_fault_witness:
  "invoke_agent (stub_env failing_agent) ''asst_eUiaOd5KjushG1semhHqtZtX'' ''Is it covered?'' world0 =
     (''Error invoking agent.'',
      \<lparr>calls = [(''asst_eUiaOd5KjushG1semhHqtZtX'', ''Is it covered?'',
                 Raises (PyExc ''RuntimeError'' ''connection lost''))],
       decoded = [], logged = [''Error invoking agent.'']\<rparr>)"
proof -
  have "get_response (stub_env failing_agent) (calls world0) ''asst_eUiaOd5KjushG1semhHqtZtX''
          ''Is it covered?'' = Raises (PyExc ''RuntimeError'' ''connection lost'')"
    by (simp add: stub_env_def failing_agent_def)
  from invoke_agent_fault [OF this] show ?thesis by (simp add: world0_def)
qed

text \<open>
  The claim as written names the text \<^verbatim>\<open>"Error invoking agent"\<close>; what a failing call
  returns differs from it.
\<close>

theorem sentinel_text_counterexample:
  "get_response (stub_env failing_agent) (calls world0) ''asst_eUiaOd5KjushG1semhHqtZtX''
      ''Is it covered?'' = Raises (PyExc ''RuntimeError'' ''connection lost'') \<and>
   fst (invoke_agent (stub_env failing_agent) ''asst_eUiaOd5KjushG1semhHqtZtX'' ''Is it covered?''
      world0) \<noteq> ''Error invoking agent''"
  by (simp add: invoke_agent_def stub_env_def failing_agent_def logging_exception_def)

subsection \<open>C4: at most two decodes, at most one extra call\<close>

text \<open>
  C4. Every run hands at most two texts to \<^verbatim>\<open>json.loads\<close> and makes at most five agent
  calls (the four stages and one clarification); at most two of them go to the claim
  handler and at most one carries the clarification query.  There is no further retry.
\<close>

theorem at_most_one_clarification:
  "\<exists>ds cs. decoded (snd (process_claim_run_agents env q w)) = decoded w @ ds \<and> length ds \<le> 2 \<and>
     calls (snd (process_claim_run_agents env q w)) = calls w @ cs \<and> length cs \<le> 5 \<and>
     length (filter (\<lambda>c. fst c = ''asst_8WPO5fEmxYN96N2yAoIjbrDb'') cs) \<le> 2 \<and>
     length (filter (\<lambda>c. fst (snd c) = clarification_query) cs) \<le> 1"
proof -
  obtain fl rec w' where run: "try_block env q w = (fl, rec, w')"
    by (cases "try_block env q w") auto
  note top = process_via_try_block [OF run]
  let ?P = "\<lambda>ds cs. decoded w' = decoded w @ ds \<and> length ds \<le> 2 \<and>
     calls w' = calls w @ cs \<and> length cs \<le> 5 \<and>
     length (filter (\<lambda>c. fst c = ''asst_8WPO5fEmxYN96N2yAoIjbrDb'') cs) \<le> 2 \<and>
     length (filter (\<lambda>c. fst (snd c) = clarification_query) cs) \<le> 1"
  have "\<exists>ds cs. ?P ds cs"
    using run
  proof (cases rule: try_block_cases)
    case (setup_fault e)
    then have "?P [] []" by simp
    then show ?thesis by blast
  next
    case (parsed pc w2)
    from policy_stage_summary [OF parsed(3) handler_entry_fresh] obtain cs where cs:
      "decoded w' = decoded w2" "calls w' = calls w2 @ cs"
      "map fst cs = take (length cs) [''asst_eUiaOd5KjushG1semhHqtZtX'',
           ''asst_6dHVA9CV9BH3NAlootUQoj23'', ''asst_k2syPJidqJUINBz7g1jvzssN'']"
      "clarification_query \<notin> (fst \<circ> snd) ` set cs"
      by blast
    note ag = downstream_agents [OF cs(3)]
    from ag(1) have nh: "filter (\<lambda>c. fst c = ''asst_8WPO5fEmxYN96N2yAoIjbrDb'') cs = []"
      by (auto simp: filter_empty_conv)
    from cs(4) have nc: "filter (\<lambda>c. fst (snd c) = clarification_query) cs = []"
      by (force simp: filter_empty_conv)
    from parsed(4) show ?thesis
    proof
      assume a: "json_loads (interpreter env) (handler_response env q w) = Decoded pc \<and>
          calls w2 = calls w @ [handler_call env q w] \<and>
          decoded w2 = decoded w @ [handler_response env q w]"
      have "?P [handler_response env q w] (handler_call env q w # cs)"
        using a cs(1,2) ag(2) nh nc
        by (simp add: handler_call_def full_query_not_clarification)
      then show ?thesis by blast
    next
      assume a: "json_loads (interpreter env) (handler_response env q w) = JSONDecodeError \<and>
          json_loads (interpreter env) (clarification_response env q w) = Decoded pc \<and>
          calls w2 = calls w @ [handler_call env q w, clarification_call env q w] \<and>
          decoded w2 = decoded w @ [handler_response env q w, clarification_response env q w]"
      have "?P [handler_response env q w, clarification_response env q w]
              (handler_call env q w # clarification_call env q w # cs)"
        using a cs(1,2) ag(2) nh nc
        by (simp add: handler_call_def clarification_call_def full_query_not_clarification)
      then show ?thesis by blast
    qed
  next
    case fatal
    then have "?P [handler_response env q w, clarification_response env q w]
              [handler_call env q w, clarification_call env q w]"
      by (simp add: handler_call_def clarification_call_def full_query_not_clarification)
    then show ?thesis by blast
  next
    case (decode_fault e)
    from decode_fault(5)
    have "?P [handler_response env q w] [handler_call env q w] \<or>
          ?P [handler_response env q w, clarification_response env q w]
             [handler_call env q w, clarification_call env q w]"
      by (auto simp: handler_call_def clarification_call_def full_query_not_clarification)
    then show ?thesis by blast
  qed
  then show ?thesis by (simp only: top)
qed

subsection \<open>C5: what was recorded survives a later fault\<close>

text \<open>
  C5. Whenever the body of the \<^verbatim>\<open>try\<close> raises, the results returned are the entries
  written so far, unchanged and in order, followed by \<^verbatim>\<open>"error"\<close> with \<^verbatim>\<open>str(e)\<close>.  At that
  moment the stage entries (all but the parsed claim) are exactly the outputs of the agent
  calls made so far, the clarification call apart: every output was stored as soon as its
  call returned, before any later step could fail.
\<close>

theorem partial_results_survive:
  assumes "try_block env q w = (Raised e, rec, w1)"
  shows "fst (process_claim_run_agents env q w) = rec @ [(''error'', Str (str_exc e))] \<and>
         filter (\<lambda>kv. fst kv \<noteq> ''Parsed Claim'') rec =
           map recorded (filter (\<lambda>c. fst (snd c) \<noteq> clarification_query) (new_calls w w1))"
proof -
  note top = process_via_try_block [OF assms]
  from assms show ?thesis
  proof (cases rule: try_block_cases)
    case (setup_fault e')
    then show ?thesis by (simp add: top new_calls_def)
  next
    case (parsed pc w2)
    from policy_stage_summary [OF parsed(3) handler_entry_fresh] obtain cs where cs:
      "calls w1 = calls w2 @ cs"
      "map fst cs = take (length cs) [''asst_eUiaOd5KjushG1semhHqtZtX'',
           ''asst_6dHVA9CV9BH3NAlootUQoj23'', ''asst_k2syPJidqJUINBz7g1jvzssN'']"
      "clarification_query \<notin> (fst \<circ> snd) ` set cs"
      "rec = [(''ClaimHandlerAgent Output'', Str (handler_response env q w))] @
             (''Parsed Claim'', Json pc) # map recorded cs"
      by blast
    note keys = downstream_recorded [OF downstream_agents(1) [OF cs(2)]]
    from keys have "''error'' \<notin> fst ` set rec"
      by (auto simp: cs(4))
    then have first: "fst (process_claim_run_agents env q w) = rec @ [(''error'', Str (str_exc e))]"
      by (simp add: top dict_set_fresh)
    from keys have "filter (\<lambda>kv. fst kv \<noteq> ''Parsed Claim'') (map recorded cs) = map recorded cs"
      by (force simp: filter_id_conv)
    then have lhs: "filter (\<lambda>kv. fst kv \<noteq> ''Parsed Claim'') rec =
        recorded (handler_call env q w) # map recorded cs"
      by (simp add: cs(4) recorded_def handler_call_def output_label_simps handler_response_def)
    from cs(3) have keep: "filter (\<lambda>c. fst (snd c) \<noteq> clarification_query) cs = cs"
      by (force simp: filter_id_conv)
    from parsed(4) have "filter (\<lambda>c. fst (snd c) \<noteq> clarification_query) (new_calls w w1) =
        handler_call env q w # cs"
      by (auto simp: new_calls_def cs(1) keep handler_call_def clarification_call_def
          full_query_not_clarification)
    with first lhs show ?thesis by simp
  next
    case fatal
    then show ?thesis by simp
  next
    case (decode_fault e')
    from decode_fault(5)
    have "filter (\<lambda>c. fst (snd c) \<noteq> clarification_query) (new_calls w w1) =
        [handler_call env q w]"
      by (auto simp: new_calls_def handler_call_def clarification_call_def
          full_query_not_clarification)
    with decode_fault(3,4) show ?thesis
      by (simp add: top recorded_def handler_call_def output_label_simps handler_response_def)
  qed
qed

theorem partial_results_survive_witness:
  "fst (process_claim_run_agents fraud_agent_missing CLAIM_QUERY world0) =
     [(''ClaimHandlerAgent Output'', Str handler_json),
      (''Parsed Claim'', Json handler_json_claim),
      (''PolicyAssessorAgent Output'', Str ''Covered under policy 2.''),
      (''error'', Str ''No assistant found'')]"
proof -
  have "try_block fraud_agent_missing CLAIM_QUERY world0 =
      (Raised (PyExc ''HttpResponseError'' ''No assistant found''),
       [(''ClaimHandlerAgent Output'', Str handler_json),
        (''Parsed Claim'', Json handler_json_claim),
        (''PolicyAssessorAgent Output'', Str ''Covered under policy 2.'')],
       snd (snd (try_block fraud_agent_missing CLAIM_QUERY world0)))"
    by (simp add: prod_eq_iff missing_run)
  from partial_results_survive [OF this] show ?thesis by simp
qed

subsection \<open>C6: absent fields\<close>

text \<open>
  C6, as amended. In a run in which the connection is set up and every agent can be
  fetched, if \<^verbatim>\<open>json.loads\<close> decodes the handler's text (valid JSON within the limits of
  the interpreter) to a dict whose \<^verbatim>\<open>policy_assessor\<close> and \<^verbatim>\<open>fraud_detector\<close> entries are
  each missing or themselves a dict, nothing raises: the run
  completes, the policy assessor, the fraud detector and the evaluator are called with
  queries built from the extracted values, \<^verbatim>\<open>None\<close> (printed as \<^verbatim>\<open>None\<close>) standing for
  every missing one, and the results hold the handler's output, the parsed claim and the three
  later outputs.
\<close>

theorem absent_fields_tolerated:
  assumes "connect env = None" and "agents_found env"
      and "json_loads (interpreter env) (handler_response env q w) = Decoded pc"
      and "section_usable pc ''policy_assessor''" and "section_usable pc ''fraud_detector''"
  shows "fst (try_block env q w) = Completed \<and>
     (\<exists>cP cF cE.
        new_calls w (snd (process_claim_run_agents env q w)) = [handler_call env q w, cP, cF, cE] \<and>
        fst cP = ''asst_eUiaOd5KjushG1semhHqtZtX'' \<and>
        fst (snd cP) = policy_query env (field_value pc ''policy_assessor'' ''policy_number'')
           (field_value pc ''policy_assessor'' ''claim_type'')
           (field_value pc ''policy_assessor'' ''damage_claim'') \<and>
        fst cF = ''asst_6dHVA9CV9BH3NAlootUQoj23'' \<and>
        fst (snd cF) = fraud_query env (field_value pc ''fraud_detector'' ''claim_description'') \<and>
        fst cE = ''asst_k2syPJidqJUINBz7g1jvzssN'' \<and>
        fst (snd cE) = evaluator_query (response_text (snd (snd cP))) (response_text (snd (snd cF))) \<and>
        fst (process_claim_run_agents env q w) =
          [(''ClaimHandlerAgent Output'', Str (handler_response env q w)),
           (''Parsed Claim'', Json pc), recorded cP, recorded cF, recorded cE]) \<and>
     py_format env JNull = ''None''"
proof -
  obtain fl rec w' where run: "try_block env q w = (fl, rec, w')"
    by (cases "try_block env q w") auto
  note top = process_via_try_block [OF run]
  from assms(2) have found: "resolve env ''asst_8WPO5fEmxYN96N2yAoIjbrDb'' = None"
    "resolve env ''asst_eUiaOd5KjushG1semhHqtZtX'' = None"
    "resolve env ''asst_6dHVA9CV9BH3NAlootUQoj23'' = None"
    "resolve env ''asst_k2syPJidqJUINBz7g1jvzssN'' = None"
    by (simp_all add: agents_found_simps)
  from run show ?thesis
  proof (cases rule: try_block_cases)
    case (setup_fault e)
    with assms(1) found show ?thesis by auto
  next
    case (parsed pc' w2)
    with assms(3) have pc: "pc' = pc" and w2: "calls w2 = calls w @ [handler_call env q w]"
      by auto
    from policy_stage_ok [OF assms(4,5) found(2,3,4)] obtain cP cF cE w'' where ok:
      "policy_stage env pc [(''ClaimHandlerAgent Output'', Str (handler_response env q w))] w2 =
       (Completed,
        dict_set ''ClaimEvaluatorAgent Output'' (Str (response_text (snd (snd cE))))
          (dict_set ''FraudDetectionAgent Output'' (Str (response_text (snd (snd cF))))
             (dict_set ''PolicyAssessorAgent Output'' (Str (response_text (snd (snd cP))))
                (dict_set ''Parsed Claim'' (Json pc)
                   [(''ClaimHandlerAgent Output'', Str (handler_response env q w))]))),
        w'')"
      "calls w'' = calls w2 @ [cP, cF, cE]"
      "fst cP = ''asst_eUiaOd5KjushG1semhHqtZtX''"
      "fst (snd cP) = policy_query env (field_value pc ''policy_assessor'' ''policy_number'')
        (field_value pc ''policy_assessor'' ''claim_type'')
        (field_value pc ''policy_assessor'' ''damage_claim'')"
      "fst cF = ''asst_6dHVA9CV9BH3NAlootUQoj23''"
      "fst (snd cF) = fraud_query env (field_value pc ''fraud_detector'' ''claim_description'')"
      "fst cE = ''asst_k2syPJidqJUINBz7g1jvzssN''"
      "fst (snd cE) = evaluator_query (response_text (snd (snd cP))) (response_text (snd (snd cF)))"
      by blast
    from ok(1) parsed(3) pc have fl: "fl = Completed" and w': "w' = w''"
      and rec: "rec = [(''ClaimHandlerAgent Output'', Str (handler_response env q w)),
           (''Parsed Claim'', Json pc), recorded cP, recorded cF, recorded cE]"
      by (simp_all add: recorded_def ok(3,5,7) output_label_simps)
    have "new_calls w (snd (process_claim_run_agents env q w)) = [handler_call env q w, cP, cF, cE]"
      by (simp add: new_calls_def top(2) w' ok(2) w2)
    moreover have "fst (process_claim_run_agents env q w) = rec"
      by (simp add: top(1) fl)
    moreover have "fst (try_block env q w) = Completed"
      by (simp add: run fl)
    ultimately show ?thesis
      using ok(3-8) rec by (auto simp: py_format_def)
  next
    case fatal
    with assms(3) show ?thesis by simp
  next
    case (decode_fault e)
    with assms(3) show ?thesis by auto
  qed
qed

theorem absent_fields_tolerated_witness:
  "fst (try_block (stub_env terse_agent) CLAIM_QUERY world0) = Completed \<and>
   map fst (fst (process_claim_run_agents (stub_env terse_agent) CLAIM_QUERY world0)) =
     [''ClaimHandlerAgent Output'', ''Parsed Claim'', ''PolicyAssessorAgent Output'',
      ''FraudDetectionAgent Output'', ''ClaimEvaluatorAgent Output''] \<and>
   take 2 (map (fst \<circ> snd) (tl (new_calls world0
        (snd (process_claim_run_agents (stub_env terse_agent) CLAIM_QUERY world0))))) =
     [''Based on the claim details: policy number None, claim type None, and damage claim amount None euros, determine if the customer is appropriately covered under their policy.'',
      ''Using the following claim description: None, evaluate whether there are any red flags or suspicious elements in the claim.'']"
proof -
  have h: "handler_response (stub_env terse_agent) CLAIM_QUERY world0 = ''{}''"
    by (simp add: handler_response_def handler_call_def stub_env_def terse_agent_def
        response_text_def)
  have hyps: "connect (stub_env terse_agent) = None" "agents_found (stub_env terse_agent)"
    "json_loads (interpreter (stub_env terse_agent))
       (handler_response (stub_env terse_agent) CLAIM_QUERY world0) = Decoded (JObject [])"
    "section_usable (JObject []) ''policy_assessor''"
    "section_usable (JObject []) ''fraud_detector''"
    by (simp_all add: h json_loads_empty_object section_usable_def stub_env_simps)
      (simp_all add: stub_env_def agents_found_simps)
  from absent_fields_tolerated [OF hyps] obtain cP cF cE where
    c: "fst (try_block (stub_env terse_agent) CLAIM_QUERY world0) = Completed"
    and n: "new_calls world0 (snd (process_claim_run_agents (stub_env terse_agent) CLAIM_QUERY world0)) =
         [handler_call (stub_env terse_agent) CLAIM_QUERY world0, cP, cF, cE]"
    and a: "fst cP = ''asst_eUiaOd5KjushG1semhHqtZtX''"
      "fst cF = ''asst_6dHVA9CV9BH3NAlootUQoj23''"
      "fst cE = ''asst_k2syPJidqJUINBz7g1jvzssN''"
    and qs: "fst (snd cP) = policy_query (stub_env terse_agent)
           (field_value (JObject []) ''policy_assessor'' ''policy_number'')
           (field_value (JObject []) ''policy_assessor'' ''claim_type'')
           (field_value (JObject []) ''policy_assessor'' ''damage_claim'')"
      "fst (snd cF) = fraud_query (stub_env terse_agent)
           (field_value (JObject []) ''fraud_detector'' ''claim_description'')"
      "fst (snd cE) = evaluator_query (response_text (snd (snd cP))) (response_text (snd (snd cF)))"
    and r: "fst (process_claim_run_agents (stub_env terse_agent) CLAIM_QUERY world0) =
          [(''ClaimHandlerAgent Output'',
            Str (handler_response (stub_env terse_agent) CLAIM_QUERY world0)),
           (''Parsed Claim'', Json (JObject [])), recorded cP, recorded cF, recorded cE]"
    by blast
  show ?thesis
    by (simp add: c n r a qs recorded_def output_label_simps policy_query_def fraud_query_def
        py_format_def field_value_def)
qed

text \<open>
  The claim as written covers every text that decodes as JSON.  A handler that flattens the
  \<^verbatim>\<open>policy_assessor\<close> section into a string returns valid JSON, which \<^verbatim>\<open>json.loads\<close>
  decodes, yet line 126 raises \<^verbatim>\<open>AttributeError\<close> on it and the run ends with an
  \<^verbatim>\<open>"error"\<close> entry and no stage output after the parsed claim.
\<close>

theorem malformed_section_counterexample:
  "json_loads cpython_limits flat_json = Decoded flat_json_claim \<and>
   handler_response (stub_env flattening_agent) CLAIM_QUERY world0 = flat_json \<and>
   connect (stub_env flattening_agent) = None \<and> agents_found (stub_env flattening_agent) \<and>
   fst (try_block (stub_env flattening_agent) CLAIM_QUERY world0) =
     Raised (AttributeError (JString ''policy 2, type B'') ''get'') \<and>
   fst (process_claim_run_agents (stub_env flattening_agent) CLAIM_QUERY world0) =
     [(''ClaimHandlerAgent Output'', Str flat_json),
      (''Parsed Claim'', Json flat_json_claim),
      (''error'', Str (str_exc (AttributeError (JString ''policy 2, type B'') ''get'')))]"
  by (simp add: json_loads_flat_json process_claim_run_agents_def run_simps flattening_agent_def
      handler_response_def handler_call_def agents_found_simps flat_json_claim_def get_field_def
      py_get_def AttributeError_def)

subsection \<open>C7: a text that is decoded needs no clarification\<close>

text \<open>
  C7, as amended. In a run that reaches the claim handler, if \<^verbatim>\<open>json.loads\<close> decodes the
  handler's text (valid JSON within the interpreter's limits on nesting and on the length of
  integers), the decoded value is stored under \<^verbatim>\<open>"Parsed Claim"\<close>, that text is the only
  one handed to \<^verbatim>\<open>json.loads\<close>, the handler is called exactly once, and no call carries
  the clarification query.
\<close>

theorem valid_json_no_clarification:
  assumes "connect env = None"
      and "resolve env ''asst_8WPO5fEmxYN96N2yAoIjbrDb'' = None"
      and "json_loads (interpreter env) (handler_response env q w) = Decoded parsed_claim"
  shows "dict_lookup ''Parsed Claim'' (fst (process_claim_run_agents env q w)) =
           Some (Json parsed_claim) \<and>
         decoded (snd (process_claim_run_agents env q w)) =
           decoded w @ [handler_response env q w] \<and>
         filter (\<lambda>c. fst c = ''asst_8WPO5fEmxYN96N2yAoIjbrDb'')
           (new_calls w (snd (process_claim_run_agents env q w))) = [handler_call env q w] \<and>
         clarification_query \<notin> (fst \<circ> snd) ` set (new_calls w (snd (process_claim_run_agents env q w)))"
proof -
  obtain fl rec w' where run: "try_block env q w = (fl, rec, w')"
    by (cases "try_block env q w") auto
  note top = process_via_try_block [OF run]
  from run show ?thesis
  proof (cases rule: try_block_cases)
    case (setup_fault e)
    with assms show ?thesis by auto
  next
    case (parsed pc w2)
    with assms have pc: "pc = parsed_claim"
      and w2: "calls w2 = calls w @ [handler_call env q w]"
        "decoded w2 = decoded w @ [handler_response env q w]"
      by auto
    from policy_stage_summary [OF parsed(3) handler_entry_fresh] obtain cs where cs:
      "decoded w' = decoded w2" "calls w' = calls w2 @ cs"
      "map fst cs = take (length cs) [''asst_eUiaOd5KjushG1semhHqtZtX'',
           ''asst_6dHVA9CV9BH3NAlootUQoj23'', ''asst_k2syPJidqJUINBz7g1jvzssN'']"
      "clarification_query \<notin> (fst \<circ> snd) ` set cs"
      "rec = [(''ClaimHandlerAgent Output'', Str (handler_response env q w))] @
             (''Parsed Claim'', Json pc) # map recorded cs"
      by blast
    have "set (map fst cs) \<subseteq> {''asst_eUiaOd5KjushG1semhHqtZtX'',
           ''asst_6dHVA9CV9BH3NAlootUQoj23'', ''asst_k2syPJidqJUINBz7g1jvzssN''}"
      by (subst cs(3)) (use set_take_subset in fastforce)
    then have nh: "filter (\<lambda>c. fst c = ''asst_8WPO5fEmxYN96N2yAoIjbrDb'') cs = []"
      by (auto simp: filter_empty_conv)
    have "dict_lookup ''Parsed Claim'' (fst (process_claim_run_agents env q w)) =
            Some (Json parsed_claim)"
      by (simp add: top(1) cs(5) pc dict_lookup_dict_set split: flow.splits)
    moreover have "new_calls w (snd (process_claim_run_agents env q w)) =
        handler_call env q w # cs"
      by (simp add: new_calls_def top(2) cs(2) w2)
    moreover have "decoded (snd (process_claim_run_agents env q w)) =
        decoded w @ [handler_response env q w]"
      by (simp add: top(3) cs(1) w2)
    ultimately show ?thesis
      using cs(4) nh by (simp add: handler_call_def full_query_not_clarification [symmetric])
  next
    case fatal
    with assms show ?thesis by auto
  next
    case (decode_fault e)
    with assms show ?thesis by auto
  qed
qed

theorem valid_json_no_clarification_witness:
  "dict_lookup ''Parsed Claim''
     (fst (process_claim_run_agents (stub_env helpful_agent) CLAIM_QUERY world0)) =
     Some (Json handler_json_claim) \<and>
   decoded (snd (process_claim_run_agents (stub_env helpful_agent) CLAIM_QUERY world0)) =
     [handler_json] \<and>
   clarification_query \<notin> (fst \<circ> snd) `
     set (new_calls world0 (snd (process_claim_run_agents (stub_env helpful_agent) CLAIM_QUERY world0)))"
proof -
  have h: "handler_response (stub_env helpful_agent) CLAIM_QUERY world0 = handler_json"
    by (simp add: handler_response_def handler_call_def stub_env_def helpful_agent_def
        response_text_def)
  have "connect (stub_env helpful_agent) = None"
    "resolve (stub_env helpful_agent) ''asst_8WPO5fEmxYN96N2yAoIjbrDb'' = None"
    "json_loads (interpreter (stub_env helpful_agent))
       (handler_response (stub_env helpful_agent) CLAIM_QUERY world0) = Decoded handler_json_claim"
    by (simp_all add: h json_loads_handler_json stub_env_simps)
  from valid_json_no_clarification [OF this] show ?thesis
    by (simp add: h world0_simps)
qed

text \<open>
  The claim as written covers every valid JSON text.  On an integer of 4301 digits
  \<^verbatim>\<open>json.loads\<close> raises \<^verbatim>\<open>ValueError\<close>, on 1000 arrays nested in each other
  \<^verbatim>\<open>RecursionError\<close>.  Neither is a \<^verbatim>\<open>JSONDecodeError\<close>, so line 106 does not catch it:
  no clarification is asked for, the handler of line 175 ends the run, and the results hold
  the handler's output and an \<^verbatim>\<open>"error"\<close> entry, with nothing under \<^verbatim>\<open>"Parsed Claim"\<close>.
\<close>

theorem over_limit_counterexample:
  "valid_json long_number \<and> valid_json deep_arrays \<and>
   connect (stub_env long_number_agent) = None \<and>
   resolve (stub_env long_number_agent) ''asst_8WPO5fEmxYN96N2yAoIjbrDb'' = None \<and>
   handler_response (stub_env long_number_agent) CLAIM_QUERY world0 = long_number \<and>
   fst (process_claim_run_agents (stub_env long_number_agent) CLAIM_QUERY world0) =
     [(''ClaimHandlerAgent Output'', Str long_number),
      (''error'', Str ''Exceeds the limit (4300 digits) for integer string conversion: value has 4301 digits; use sys.set_int_max_str_digits() to increase the limit'')] \<and>
   new_calls world0 (snd (process_claim_run_agents (stub_env long_number_agent) CLAIM_QUERY world0)) =
     [(''asst_8WPO5fEmxYN96N2yAoIjbrDb'', CLAIM_QUERY @ JSON_FORMAT, Returns long_number)] \<and>
   connect (stub_env deep_arrays_agent) = None \<and>
   resolve (stub_env deep_arrays_agent) ''asst_8WPO5fEmxYN96N2yAoIjbrDb'' = None \<and>
   handler_response (stub_env deep_arrays_agent) CLAIM_QUERY world0 = deep_arrays \<and>
   fst (process_claim_run_agents (stub_env deep_arrays_agent) CLAIM_QUERY world0) =
     [(''ClaimHandlerAgent Output'', Str deep_arrays),
      (''error'', Str ''maximum recursion depth exceeded while decoding a JSON array from a unicode string'')]"
  by (simp add: valid_json_def json_loads_long_number json_loads_deep_arrays
      process_claim_run_agents_def try_block_def parse_or_clarify_def loads_def invoke_agent_eq
      get_agent_simps Let_def stub_env_simps long_number_agent_def deep_arrays_agent_def
      response_text_def handler_response_def handler_call_def int_digits_error_text
      RecursionError_text new_calls_def world0_simps logging_exception_def)

subsection \<open>C8: the same input gives the same results\<close>

text \<open>
  C8. With a deterministic agent stub, the results of a run do not depend on the world it
  starts from: two runs on the same query return the same list of entries (same labels,
  same order, same values), in particular a second run started where the first one ended.
\<close>

theorem same_inputs_same_results:
  assumes "stateless env"
  shows "fst (process_claim_run_agents env q w2) = fst (process_claim_run_agents env q w1) \<and>
         fst (process_claim_run_agents env q (snd (process_claim_run_agents env q w1))) =
           fst (process_claim_run_agents env q w1)"
proof -
  have "fst (process_claim_run_agents env q w) = fst (process_claim_run_agents env q v)" for w v
  proof -
    obtain fl rec w' where a: "try_block env q w = (fl, rec, w')"
      by (cases "try_block env q w") auto
    obtain fl' rec' v' where b: "try_block env q v = (fl', rec', v')"
      by (cases "try_block env q v") auto
    from try_block_indep [OF assms, of q w v] a b have b': "try_block env q v = (fl, rec, v')"
      by simp
    show ?thesis
      by (simp only: process_via_try_block(1) [OF a] process_via_try_block(1) [OF b'])
  qed
  then show ?thesis by blast
qed

theorem same_inputs_same_results_witness:
  "fst (process_claim_run_agents (stub_env helpful_agent) CLAIM_QUERY
          (snd (process_claim_run_agents (stub_env helpful_agent) CLAIM_QUERY world0))) =
   fst (process_claim_run_agents (stub_env helpful_agent) CLAIM_QUERY world0)"
proof -
  have "stateless (stub_env helpful_agent)"
    by (simp add: stateless_def stub_env_simps)
  from same_inputs_same_results [OF this] show ?thesis by blast
qed

subsection \<open>C9: a failing handler call always leads to the clarification\<close>

text \<open>
  C9. The sentinel text does not decode as JSON.  So in a run in which the call of the claim
  handler raises, the handler's output is the sentinel, the first decode fails and the second
  call of the run is the clarification; if that call raises as well, the run ends with the
  handler's sentinel output and the fixed parse-failure message under \<^verbatim>\<open>"error"\<close>, not with
  the text of either fault.
\<close>

theorem handler_fault_forces_clarification:
  assumes "connect env = None"
      and "resolve env ''asst_8WPO5fEmxYN96N2yAoIjbrDb'' = None"
      and "get_response env (calls w) ''asst_8WPO5fEmxYN96N2yAoIjbrDb'' (q @ JSON_FORMAT) = Raises e"
  shows "json_loads lim ''Error invoking agent.'' = JSONDecodeError \<and>
         handler_response env q w = ''Error invoking agent.'' \<and>
         take 2 (new_calls w (snd (process_claim_run_agents env q w))) =
           [handler_call env q w, clarification_call env q w] \<and>
         ((\<exists>e2. snd (snd (clarification_call env q w)) = Raises e2) \<longrightarrow>
            fst (process_claim_run_agents env q w) =
              [(''ClaimHandlerAgent Output'', Str ''Error invoking agent.''),
               (''error'', Str ''Clarification attempt failed, stop process.'')])"
proof -
  obtain fl rec w' where run: "try_block env q w = (fl, rec, w')"
    by (cases "try_block env q w") auto
  note top = process_via_try_block [OF run]
  have hr: "handler_response env q w = ''Error invoking agent.''"
    using assms(3) by (simp add: handler_response_def handler_call_def response_text_def)
  have cr: "clarification_response env q w = ''Error invoking agent.''"
    if "snd (snd (clarification_call env q w)) = Raises e2" for e2
    using that by (simp add: clarification_response_def response_text_def)
  from run show ?thesis
  proof (cases rule: try_block_cases)
    case (setup_fault e')
    with assms show ?thesis by auto
  next
    case (parsed pc w2)
    from policy_stage_summary [OF parsed(3) handler_entry_fresh] obtain cs where
      cs: "calls w' = calls w2 @ cs"
      by blast
    from parsed(4) hr have w2: "calls w2 = calls w @ [handler_call env q w, clarification_call env q w]"
      and ok: "json_loads (interpreter env) (clarification_response env q w) = Decoded pc"
      by (auto simp: json_loads_sentinel)
    from ok have "\<not> (\<exists>e2. snd (snd (clarification_call env q w)) = Raises e2)"
      using cr by (auto simp: json_loads_sentinel)
    then show ?thesis
      by (simp add: hr json_loads_sentinel new_calls_def top cs w2)
  next
    case fatal
    with run show ?thesis
      by (simp add: hr json_loads_sentinel new_calls_def top process_claim_run_agents_def)
  next
    case (decode_fault e')
    from decode_fault(5) hr
    have w': "calls w' = calls w @ [handler_call env q w, clarification_call env q w]"
      and bad: "json_loads (interpreter env) (clarification_response env q w) = Fault e'"
      by (auto simp: json_loads_sentinel)
    from bad have "\<not> (\<exists>e2. snd (snd (clarification_call env q w)) = Raises e2)"
      using cr by (auto simp: json_loads_sentinel)
    then show ?thesis
      by (simp add: hr json_loads_sentinel new_calls_def top w')
  qed
qed

theorem handler_fault_forces_clarification_witness:
  "json_loads cpython_limits ''Error invoking agent.'' = JSONDecodeError \<and>
   fst (process_claim_run_agents (stub_env failing_agent) CLAIM_QUERY world0) =
     [(''ClaimHandlerAgent Output'', Str ''Error invoking agent.''),
      (''error'', Str ''Clarification attempt failed, stop process.'')]"
proof -
  have "connect (stub_env failing_agent) = None"
    "resolve (stub_env failing_agent) ''asst_8WPO5fEmxYN96N2yAoIjbrDb'' = None"
    "get_response (stub_env failing_agent) (calls world0) ''asst_8WPO5fEmxYN96N2yAoIjbrDb''
       (CLAIM_QUERY @ JSON_FORMAT) = Raises (PyExc ''RuntimeError'' ''connection lost'')"
    by (simp_all add: stub_env_def failing_agent_def)
  from handler_fault_forces_clarification [OF this] show ?thesis
    by (simp add: clarification_call_def stub_env_def failing_agent_def)
qed

subsection \<open>C10: the result of a fatal parse error\<close>

text \<open>
  C10. A run that leaves through \<^verbatim>\<open>return results\<close> on line 119 returns exactly two
  entries, the handler's output and \<^verbatim>\<open>"error"\<close>: there is no parsed claim and no output of
  a later stage.
\<close>

theorem fatal_parse_two_entries:
  assumes "fst (try_block env q w) = Returned"
  shows "fst (process_claim_run_agents env q w) =
           [(''ClaimHandlerAgent Output'', Str (handler_response env q w)),
            (''error'', Str ''Clarification attempt failed, stop process.'')] \<and>
         length (fst (process_claim_run_agents env q w)) = 2 \<and>
         dict_lookup ''Parsed Claim'' (fst (process_claim_run_agents env q w)) = None \<and>
         fst ` set (fst (process_claim_run_agents env q w)) \<inter> downstream_labels = {}"
proof -
  obtain fl rec w' where run: "try_block env q w = (fl, rec, w')"
    by (cases "try_block env q w") auto
  with assms have fl: "fl = Returned" by simp
  from run show ?thesis
  proof (cases rule: try_block_cases)
    case (setup_fault e)
    with fl show ?thesis by simp
  next
    case (parsed pc w2)
    from policy_stage_summary [OF parsed(3) handler_entry_fresh] fl show ?thesis by simp
  next
    case fatal
    with run show ?thesis
      by (simp add: process_claim_run_agents_def downstream_labels_def)
  next
    case (decode_fault e)
    with fl show ?thesis by simp
  qed
qed

theorem fatal_parse_two_entries_witness:
  "fst (process_claim_run_agents (stub_env prose_agent) CLAIM_QUERY world0) =
     [(''ClaimHandlerAgent Output'', Str ''Sorry, I can only answer in prose.''),
      (''error'', Str ''Clarification attempt failed, stop process.'')] \<and>
   length (fst (process_claim_run_agents (stub_env prose_agent) CLAIM_QUERY world0)) = 2"
  using fatal_parse_two_entries [OF prose_run]
  by (simp add: handler_response_def handler_call_def stub_env_def prose_agent_def
      response_text_def)

end
